theory Spec2Isabelle
  imports Main
begin

section \<open>Errors and message formatting\<close>

text \<open>
  The engine of \<^verbatim>\<open>pattern-match/define-and-run.py\<close> signals every failure with a Python
  exception.  An exception is modelled by its class, the text \<^verbatim>\<open>str(err)\<close> and the
  exception that was being handled when it was raised (\<^verbatim>\<open>__context__\<close>), which
  Python 3 records for a \<^verbatim>\<open>raise\<close> inside an \<^verbatim>\<open>except\<close> block.
\<close>

datatype kind =
    SyntaxError | ValueError | TypeError | KeyError | IndexError
  | AttributeError | RuntimeError | AssertionError

datatype error = Error (ekind: kind) (emsg: string) (econtext: "error option")

fun kind_name :: "kind \<Rightarrow> string" where
  "kind_name SyntaxError = ''SyntaxError''"
| "kind_name ValueError = ''ValueError''"
| "kind_name TypeError = ''TypeError''"
| "kind_name KeyError = ''KeyError''"
| "kind_name IndexError = ''IndexError''"
| "kind_name AttributeError = ''AttributeError''"
| "kind_name RuntimeError = ''RuntimeError''"
| "kind_name AssertionError = ''AssertionError''"

definition sq :: char where
  "sq = CHR 0x27"

definition dq :: char where
  "dq = CHR 0x22"

definition digit_char :: "nat \<Rightarrow> char" where
  "digit_char d = char_of (48 + d)"

fun str_nat :: "nat \<Rightarrow> string" where
  "str_nat n = (if n < 10 then [digit_char n] else str_nat (n div 10) @ [digit_char (n mod 10)])"

declare str_nat.simps [simp del]

definition str_int :: "int \<Rightarrow> string" where
  "str_int i = (if i < 0 then CHR ''-'' # str_nat (nat (- i)) else str_nat (nat i))"

text \<open>\<^verbatim>\<open>repr\<close> of a string without quotes or escapes, which is what a name of the
  language (a \<^verbatim>\<open>CNAME\<close>) is.\<close>

definition repr_str :: "string \<Rightarrow> string" where
  "repr_str s = sq # s @ [sq]"

text \<open>\<^verbatim>\<open>"???" if node.line is None else node.line\<close>, rendered by \<^verbatim>\<open>format\<close>.\<close>

definition line_text :: "nat option \<Rightarrow> string" where
  "line_text ln = (case ln of None \<Rightarrow> ''???'' | Some l \<Rightarrow> str_nat l)"

text \<open>\<^verbatim>\<open>str(None)\<close> is \<^verbatim>\<open>None\<close>: the rendering of a line that is used without the
  \<^verbatim>\<open>???\<close> guard.\<close>

definition str_line :: "nat option \<Rightarrow> string" where
  "str_line ln = (case ln of None \<Rightarrow> ''None'' | Some l \<Rightarrow> str_nat l)"

subsection \<open>\<^verbatim>\<open>str.format\<close>\<close>

text \<open>
  The messages are built with \<^verbatim>\<open>str.format\<close>.  The model covers the replacement fields
  \<^verbatim>\<open>{}\<close> and \<^verbatim>\<open>{N}\<close>, the escapes \<^verbatim>\<open>{{\<close> and \<^verbatim>\<open>}}\<close>, and the rule that a
  template may not switch between numbered and unnumbered fields; the field name is cut at
  the first \<^verbatim>\<open>.\<close> or \<^verbatim>\<open>[\<close>, and an empty first part is an unnumbered field.  A field
  that goes on with an attribute, an index, a conversion or a format specification after its
  argument was fetched has no answer in the model (\<open>None\<close>).
\<close>

datatype numbering = ANS_INIT | ANS_AUTO | ANS_MANUAL

datatype fmt_mode = Lit | Field nat string

definition nat_of_digits :: "string \<Rightarrow> nat option" where
  "nat_of_digits s =
     (if s \<noteq> [] \<and> (\<forall>c \<in> set s. 48 \<le> (of_char c :: nat) \<and> (of_char c :: nat) \<le> 57)
      then Some (foldl (\<lambda>a c. 10 * a + (of_char c - 48)) 0 s) else None)"

definition fetch_arg :: "string list \<Rightarrow> nat \<Rightarrow> error + string" where
  "fetch_arg args i =
     (if i < length args then Inr (args ! i)
      else Inl (Error IndexError
        (''Replacement index '' @ str_nat i @ '' out of range for positional args tuple'') None))"

definition format_field ::
  "numbering \<Rightarrow> nat \<Rightarrow> string \<Rightarrow> string list \<Rightarrow> (error + string \<times> numbering \<times> nat) option" where
  "format_field a k f args =
     (let name = takeWhile (\<lambda>c. c \<noteq> CHR ''!'' \<and> c \<noteq> CHR '':'') f;
          spec = dropWhile (\<lambda>c. c \<noteq> CHR ''!'' \<and> c \<noteq> CHR '':'') f;
          first = takeWhile (\<lambda>c. c \<noteq> CHR ''.'' \<and> c \<noteq> CHR ''['') name;
          rest = dropWhile (\<lambda>c. c \<noteq> CHR ''.'' \<and> c \<noteq> CHR ''['') name
      in if spec \<noteq> [] then None
         else if first = [] then
           (if a = ANS_MANUAL then
              Some (Inl (Error ValueError
                ''cannot switch from manual field specification to automatic field numbering'' None))
            else (case fetch_arg args k of
                    Inl e \<Rightarrow> Some (Inl e)
                  | Inr s \<Rightarrow> if rest \<noteq> [] then None else Some (Inr (s, ANS_AUTO, Suc k))))
         else (case nat_of_digits first of
                 None \<Rightarrow> Some (Inl (Error KeyError (repr_str first) None))
               | Some i \<Rightarrow>
                   if a = ANS_AUTO then
                     Some (Inl (Error ValueError
                       ''cannot switch from automatic field numbering to manual field specification'' None))
                   else (case fetch_arg args i of
                           Inl e \<Rightarrow> Some (Inl e)
                         | Inr s \<Rightarrow> if rest \<noteq> [] then None else Some (Inr (s, ANS_MANUAL, k)))))"

definition emit :: "string \<Rightarrow> (error + string) option \<Rightarrow> (error + string) option" where
  "emit s r = (case r of None \<Rightarrow> None | Some (Inl e) \<Rightarrow> Some (Inl e) | Some (Inr t) \<Rightarrow> Some (Inr (s @ t)))"

fun fmt :: "fmt_mode \<Rightarrow> numbering \<Rightarrow> nat \<Rightarrow> string \<Rightarrow> string list \<Rightarrow> (error + string) option" where
  "fmt Lit a k [] args = Some (Inr [])"
| "fmt (Field d f) a k [] args =
     Some (Inl (Error ValueError (''expected '' @ [sq] @ ''}'' @ [sq] @ '' before end of string'') None))"
| "fmt Lit a k (c # cs) args =
     (if c = CHR ''{'' then
        (case cs of
           [] \<Rightarrow> Some (Inl (Error ValueError
                   (''Single '' @ [sq] @ ''{'' @ [sq] @ '' encountered in format string'') None))
         | c' # cs' \<Rightarrow> if c' = CHR ''{'' then emit ''{'' (fmt Lit a k cs' args)
                       else fmt (Field 0 []) a k cs args)
      else if c = CHR ''}'' then
        (case cs of
           [] \<Rightarrow> Some (Inl (Error ValueError
                   (''Single '' @ [sq] @ ''}'' @ [sq] @ '' encountered in format string'') None))
         | c' # cs' \<Rightarrow> if c' = CHR ''}'' then emit ''}'' (fmt Lit a k cs' args)
                       else Some (Inl (Error ValueError
                   (''Single '' @ [sq] @ ''}'' @ [sq] @ '' encountered in format string'') None)))
      else emit [c] (fmt Lit a k cs args))"
| "fmt (Field d f) a k (c # cs) args =
     (if c = CHR ''}'' then
        (case d of
           0 \<Rightarrow> (case format_field a k f args of
                   None \<Rightarrow> None
                 | Some (Inl e) \<Rightarrow> Some (Inl e)
                 | Some (Inr (s, a', k')) \<Rightarrow> emit s (fmt Lit a' k' cs args))
         | Suc d' \<Rightarrow> fmt (Field d' (f @ [c])) a k cs args)
      else if c = CHR ''{'' then fmt (Field (Suc d) (f @ [c])) a k cs args
      else fmt (Field d (f @ [c])) a k cs args)"

definition py_format :: "string \<Rightarrow> string list \<Rightarrow> (error + string) option" where
  "py_format template args = fmt Lit ANS_INIT 0 template args"

section \<open>Parse trees and the abstract syntax\<close>

text \<open>
  The parser hands over a generic tree: a \<^verbatim>\<open>Tree\<close> has a label \<^verbatim>\<open>data\<close> and a list of
  children, a \<^verbatim>\<open>Token\<close> is a string with the line it was read on.
\<close>

datatype ptree = Tree (data: string) (children: "ptree list") | Token (tok_text: string) (tok_line: nat)

text \<open>
  \<^verbatim>\<open>Matching\<close> objects and the classes minted by \<^verbatim>\<open>Pattern.__init__\<close> are identified by
  a number, taken from a counter when the object is created.  A \<^verbatim>\<open>Join\<close> node owns its
  \<^verbatim>\<open>Matching\<close> with the list of candidate expressions, which is complete when the node is
  built; a \<^verbatim>\<open>Pattern\<close> and a \<^verbatim>\<open>Placeholder\<close> only refer to it.  Every node carries
  its \<^verbatim>\<open>line\<close> as the last argument.
\<close>

datatype const = CInt int | CFloat string

datatype 'n matching = Matching (mid: nat) (collections: "'n list")

datatype node =
    Module "node list" "nat option"
  | Assignment string string node "nat option"
  | Pattern "node list" "nat option" nat "nat option"
  | Join node "node matching" "nat option"
  | Function "string list" node "nat option"
  | Block "node list" node "nat option"
  | Call node "node list" "nat option"
  | Subscript node node "nat option"
  | Attribute node string "nat option"
  | Slice "node option" "node option" "nat option"
  | Symbol string "nat option"
  | Literal const "nat option"
  | Placeholder nat nat

fun line_of :: "node \<Rightarrow> nat option" where
  "line_of (Module xs ln) = ln"
| "line_of (Assignment s opr e ln) = ln"
| "line_of (Pattern xs m c ln) = ln"
| "line_of (Join e m ln) = ln"
| "line_of (Function ps b ln) = ln"
| "line_of (Block xs e ln) = ln"
| "line_of (Call f xs ln) = ln"
| "line_of (Subscript a i ln) = ln"
| "line_of (Attribute a f ln) = ln"
| "line_of (Slice a b ln) = ln"
| "line_of (Symbol s ln) = ln"
| "line_of (Literal c ln) = ln"
| "line_of (Placeholder m n) = None"

text \<open>\<^verbatim>\<open>AST.__init__\<close>: the line is that of the first argument, or element of a list
  argument, that has one.\<close>

fun infer_line :: "nat option list \<Rightarrow> nat option" where
  "infer_line [] = None"
| "infer_line (None # ls) = infer_line ls"
| "infer_line (Some l # ls) = Some l"

definition opname :: "string \<Rightarrow> string option" where
  "opname d = map_of
     [(''and'', ''and''), (''or'', ''or''), (''not'', ''not''),
      (''eq'', ''==''), (''ne'', ''!=''), (''gt'', ''>''), (''ge'', ''>=''), (''lt'', ''<''), (''le'', ''<=''),
      (''add'', ''+''), (''sub'', ''-''), (''mul'', ''*''), (''div'', ''/''), (''pos'', ''+''), (''neg'', ''-''),
      (''pow'', ''**''),
      (''symmetric'', ''~''), (''allsymmetric'', ''~~''), (''asymmetric'', ''!~''), (''allasymmetric'', ''!~~'')] d"

section \<open>Building the syntax tree: \<^verbatim>\<open>toast\<close>\<close>

text \<open>
  \<^verbatim>\<open>toast(node, matching)\<close> returns a node, or a list of nodes (\<^verbatim>\<open>arglist\<close>), or a list
  of names (\<^verbatim>\<open>paramlist\<close>).  It creates classes and \<^verbatim>\<open>Matching\<close> objects and appends
  to the candidate list of the \<^verbatim>\<open>Matching\<close> it is given, so a build step is a function of
  the counters and candidate lists, which ends in an exception, in a result with the new
  state, or in \<open>None\<close>: the source would go on with a tree that has a list or a parse tree
  at the place of a node or of a name, which no tree of the grammar leads to.
\<close>

datatype tval = TNode node | TNodes "node list" | TNames "string list"

record tstate =
  next_class :: nat
  next_matching :: nat
  colls :: "nat \<Rightarrow> node list"

type_synonym 'a build = "tstate \<Rightarrow> (error + 'a \<times> tstate) option"

definition retB :: "'a \<Rightarrow> 'a build" where
  "retB x = (\<lambda>st. Some (Inr (x, st)))"

definition raiseB :: "error \<Rightarrow> 'a build" where
  "raiseB e = (\<lambda>st. Some (Inl e))"

definition noneB :: "'a build" where
  "noneB = (\<lambda>st. None)"

definition bindB :: "'a build \<Rightarrow> ('a \<Rightarrow> 'b build) \<Rightarrow> 'b build" where
  "bindB f g = (\<lambda>st. case f st of
                        None \<Rightarrow> None
                      | Some (Inl e) \<Rightarrow> Some (Inl e)
                      | Some (Inr (x, st1)) \<Rightarrow> g x st1)"

definition index_error :: error where
  "index_error = Error IndexError ''list index out of range'' None"

definition no_data :: error where
  "no_data = Error AttributeError
     (repr_str ''Token'' @ '' object has no attribute '' @ repr_str ''data'') None"

text \<open>\<^verbatim>\<open>xs[i]\<close> for \<open>i \<ge> 0\<close>.\<close>

definition child :: "'a list \<Rightarrow> nat \<Rightarrow> 'a build" where
  "child xs i = (if i < length xs then retB (xs ! i) else raiseB index_error)"

fun is_token :: "ptree \<Rightarrow> bool" where
  "is_token (Token t l) = True"
| "is_token (Tree d cs) = False"

fun token_names :: "ptree list \<Rightarrow> string list option" where
  "token_names [] = Some []"
| "token_names (Token t l # cs) = map_option (Cons t) (token_names cs)"
| "token_names (Tree d xs # cs) = None"

fun token_lines :: "ptree list \<Rightarrow> nat option list" where
  "token_lines [] = []"
| "token_lines (Token t l # cs) = Some l # token_lines cs"
| "token_lines (Tree d xs # cs) = None # token_lines cs"

text \<open>\<^verbatim>\<open>int(token)\<close> for a token of decimal digits.\<close>

definition int_of_text :: "string \<Rightarrow> int option" where
  "int_of_text s = map_option int (nat_of_digits s)"

text \<open>\<^verbatim>\<open>Matching()\<close> and \<^verbatim>\<open>type("Line...", (ID,), {})\<close>: a new object each time.\<close>

definition new_matching :: "nat build" where
  "new_matching = (\<lambda>st. Some (Inr (next_matching st,
      st\<lparr>next_matching := Suc (next_matching st), colls := (colls st)(next_matching st := [])\<rparr>)))"

definition new_class :: "nat build" where
  "new_class = (\<lambda>st. Some (Inr (next_class st, st\<lparr>next_class := Suc (next_class st)\<rparr>)))"

definition collections_of :: "nat \<Rightarrow> node list build" where
  "collections_of m = (\<lambda>st. Some (Inr (colls st m, st)))"

text \<open>\<^verbatim>\<open>Matching.replace\<close>, once the candidate is built: append it and return the
  placeholder for its position.\<close>

definition replace :: "nat \<Rightarrow> node \<Rightarrow> node build" where
  "replace m x = (\<lambda>st. Some (Inr (Placeholder m (length (colls st m @ [x]) - 1),
      st\<lparr>colls := (colls st)(m := colls st m @ [x])\<rparr>)))"

text \<open>\<^verbatim>\<open>raise SyntaxError("cannot use {0} operator outside of a match {...}".format(...))\<close>:
  the argument of \<^verbatim>\<open>SyntaxError\<close> is evaluated first.\<close>

definition no_match_error :: "string \<Rightarrow> 'a build" where
  "no_match_error opr =
     (case py_format ''cannot use {0} operator outside of a match {...}'' [opr] of
        None \<Rightarrow> noneB
      | Some (Inl e) \<Rightarrow> raiseB e
      | Some (Inr s) \<Rightarrow> raiseB (Error SyntaxError s None))"

text \<open>The list comprehensions \<^verbatim>\<open>[toast(x, matching) for x in node.children ...]\<close>, with
  or without the filter \<^verbatim>\<open>if not isinstance(x, lark.lexer.Token)\<close>.  Each child comes
  with its own \<^verbatim>\<open>toast\<close>.\<close>

fun each :: "bool \<Rightarrow> (ptree \<times> (nat option \<Rightarrow> tval build)) list \<Rightarrow> nat option \<Rightarrow> node list build" where
  "each skip [] m = retB []"
| "each skip ((c, t) # xs) m =
     (if skip \<and> is_token c then each skip xs m
      else bindB (t m) (\<lambda>v. bindB (each skip xs m) (\<lambda>vs.
             case v of TNode x \<Rightarrow> retB (x # vs) | _ \<Rightarrow> noneB)))"

text \<open>One level of \<^verbatim>\<open>toast\<close> on a \<^verbatim>\<open>Tree\<close>: \<open>cs\<close> are the children and \<open>ts ! i\<close> is
  \<^verbatim>\<open>toast\<close> of \<^verbatim>\<open>node.children[i]\<close>.\<close>

definition toast_node ::
  "string \<Rightarrow> ptree list \<Rightarrow> (nat option \<Rightarrow> tval build) list \<Rightarrow> nat option \<Rightarrow> tval build" where
  "toast_node d cs ts m =
    (if d = ''pass'' then
       bindB (child ts 0) (\<lambda>t. t m)
     else if d = ''start'' then
       bindB (each True (zip cs ts) m) (\<lambda>xs.
         retB (TNode (Module xs (infer_line (map line_of xs)))))
     else if d = ''funcassign'' then
       bindB (child cs 0) (\<lambda>c0.
       bindB (child ts (length ts - 1)) (\<lambda>t.
       bindB (t m) (\<lambda>v.
         case (c0, v, token_names (butlast (tl cs))) of
           (Token name l, TNode body, Some ps) \<Rightarrow>
             let f = Function ps body (infer_line (token_lines (butlast (tl cs)) @ [line_of body]))
             in retB (TNode (Assignment name ''='' f (line_of f)))
         | _ \<Rightarrow> noneB)))
     else if d = ''assignment'' \<or> d = ''patassign'' then
       bindB (child cs 0) (\<lambda>c0.
       bindB (child ts 1) (\<lambda>t.
       bindB (t m) (\<lambda>v.
         case (c0, v) of
           (Token name l, TNode e) \<Rightarrow> retB (TNode (Assignment name ''='' e (line_of e)))
         | _ \<Rightarrow> noneB)))
     else if d = ''symmetric'' \<or> d = ''allsymmetric'' \<or> d = ''asymmetric'' \<or> d = ''allasymmetric'' then
       (case opname d of
          None \<Rightarrow> raiseB (Error KeyError (repr_str d) None)
        | Some opr \<Rightarrow>
            (case m of
               None \<Rightarrow> no_match_error opr
             | Some mt \<Rightarrow>
                 bindB (child cs 0) (\<lambda>c0.
                 bindB (child ts 1) (\<lambda>t.
                 bindB (t (Some mt)) (\<lambda>v.
                   case (c0, v) of
                     (Token name l, TNode x) \<Rightarrow>
                       bindB (replace mt x) (\<lambda>ph.
                         retB (TNode (Assignment name opr ph (line_of ph))))
                   | _ \<Rightarrow> noneB)))))
     else if d = ''pattern'' then
       bindB (each True (zip cs ts) m) (\<lambda>xs.
       bindB new_class (\<lambda>c.
         retB (TNode (Pattern xs m c (infer_line (map line_of xs))))))
     else if d = ''join'' then
       bindB new_matching (\<lambda>mt.
       bindB (child ts 0) (\<lambda>t.
       bindB (t (Some mt)) (\<lambda>v.
         case v of
           TNode e \<Rightarrow> bindB (collections_of mt) (\<lambda>xs.
                        retB (TNode (Join e (Matching mt xs) (line_of e))))
         | _ \<Rightarrow> noneB)))
     else if d = ''function'' then
       bindB (child ts 0) (\<lambda>t0.
       bindB (t0 m) (\<lambda>v0.
       bindB (child ts 1) (\<lambda>t1.
       bindB (t1 None) (\<lambda>v1.
         case (v0, v1) of
           (TNames ps, TNode body) \<Rightarrow> retB (TNode (Function ps body (line_of body)))
         | _ \<Rightarrow> noneB))))
     else if d = ''paramlist'' then
       (case token_names cs of None \<Rightarrow> noneB | Some ps \<Rightarrow> retB (TNames ps))
     else if d = ''block'' then
       bindB (each True (zip cs ts) m) (\<lambda>items.
         if length items = 1 then retB (TNode (items ! 0))
         else if items = [] then raiseB index_error
         else retB (TNode (Block (butlast items) (last items)
                (infer_line (map line_of (butlast items) @ [line_of (last items)])))))
     else if d = ''call'' then
       bindB (child ts 0) (\<lambda>t0.
       bindB (t0 m) (\<lambda>v0.
       bindB (child ts 1) (\<lambda>t1.
       bindB (t1 m) (\<lambda>v1.
         case (v0, v1) of
           (TNode f, TNodes xs) \<Rightarrow> retB (TNode (Call f xs (infer_line (line_of f # map line_of xs))))
         | _ \<Rightarrow> noneB))))
     else if d = ''arglist'' then
       bindB (each False (zip cs ts) m) (\<lambda>xs. retB (TNodes xs))
     else if d = ''subscript'' then
       bindB (child ts 0) (\<lambda>t0.
       bindB (t0 m) (\<lambda>v0.
       bindB (child ts 1) (\<lambda>t1.
       bindB (t1 m) (\<lambda>v1.
         case (v0, v1) of
           (TNode a, TNode i) \<Rightarrow> retB (TNode (Subscript a i (infer_line [line_of a, line_of i])))
         | _ \<Rightarrow> noneB))))
     else if d = ''attribute'' then
       bindB (child ts 0) (\<lambda>t0.
       bindB (t0 m) (\<lambda>v0.
       bindB (child cs 1) (\<lambda>c1.
         case (v0, c1) of
           (TNode a, Token field l) \<Rightarrow> retB (TNode (Attribute a field (infer_line [line_of a, Some l])))
         | _ \<Rightarrow> noneB)))
     else if d = ''slice1'' then
       bindB (child ts 0) (\<lambda>t0.
       bindB (t0 m) (\<lambda>v0.
         case v0 of
           TNode a \<Rightarrow> retB (TNode (Slice (Some a) None (infer_line [line_of a, None])))
         | _ \<Rightarrow> noneB))
     else if d = ''slice2'' then
       bindB (child ts 0) (\<lambda>t0.
       bindB (t0 m) (\<lambda>v0.
         case v0 of
           TNode b \<Rightarrow> retB (TNode (Slice None (Some b) (infer_line [None, line_of b])))
         | _ \<Rightarrow> noneB))
     else if d = ''slice12'' then
       bindB (child ts 0) (\<lambda>t0.
       bindB (t0 m) (\<lambda>v0.
       bindB (child ts 1) (\<lambda>t1.
       bindB (t1 m) (\<lambda>v1.
         case (v0, v1) of
           (TNode a, TNode b) \<Rightarrow> retB (TNode (Slice (Some a) (Some b) (infer_line [line_of a, line_of b])))
         | _ \<Rightarrow> noneB))))
     else if d = ''symbol'' then
       bindB (child cs 0) (\<lambda>c0.
         case c0 of Token t l \<Rightarrow> retB (TNode (Symbol t (Some l))) | _ \<Rightarrow> noneB)
     else if d = ''int'' then
       bindB (child cs 0) (\<lambda>c0.
         case c0 of
           Token t l \<Rightarrow> (case int_of_text t of
                           None \<Rightarrow> noneB
                         | Some i \<Rightarrow> retB (TNode (Literal (CInt i) (Some l))))
         | _ \<Rightarrow> noneB)
     else if d = ''float'' then
       bindB (child cs 0) (\<lambda>c0.
         case c0 of Token t l \<Rightarrow> retB (TNode (Literal (CFloat t) (Some l))) | _ \<Rightarrow> noneB)
     else
       (case opname d of
          Some opr \<Rightarrow>
            bindB (each False (zip cs ts) m) (\<lambda>xs.
              retB (TNode (Call (Symbol opr None) xs (infer_line (None # map line_of xs)))))
        | None \<Rightarrow> raiseB (Error AssertionError d None)))"

primrec toast :: "ptree \<Rightarrow> nat option \<Rightarrow> tval build" where
  "toast (Tree d cs) = toast_node d cs (map toast cs)"
| "toast (Token t l) = (\<lambda>m. raiseB no_data)"

section \<open>Values\<close>

text \<open>
  The values the evaluator produces or is given by its caller.  A record (\<^verbatim>\<open>obj\<close>) has
  an identity and its fields in the order of their assignment; its identity is an instance
  \<^verbatim>\<open>node.ID(n)\<close> of the class minted for the pattern, kept as the class, the name
  \<^verbatim>\<open>Line...\<close> of the class and \<open>n\<close>.  A function value is the closure returned for a
  \<^verbatim>\<open>Function\<close> node: the only variable of the enclosing call that its body reads is
  \<^verbatim>\<open>node\<close>, since its own parameter \<^verbatim>\<open>symbols\<close> hides the outer one.  A float is kept
  as the text of its literal, and no arithmetic on floats is modelled.
\<close>

datatype ident = ID (id_class: nat) (id_name: string) (id_n: "nat option")

text \<open>\<^verbatim>\<open>ID.__eq__\<close>: the same class and the same \<open>n\<close>.\<close>

definition id_eq :: "ident \<Rightarrow> ident \<Rightarrow> bool" where
  "id_eq a b = (id_class a = id_class b \<and> id_n a = id_n b)"

datatype builtin =
    B_len | B_abs | B_and | B_or | B_not
  | B_eq | B_ne | B_gt | B_ge | B_lt | B_le
  | B_add | B_sub | B_mul | B_div | B_pow
  | B_sqrt | B_exp | B_sin | B_cos | B_tan | B_sinh | B_cosh | B_tanh
  | B_union

datatype val =
    VNone | VBool bool | VInt int | VFloat string | VStr string
  | VList "val list" | VSlice val val
  | VObj ident "(string \<times> val) list"
  | VFunction "string list" node "nat option"
  | VBuiltin builtin

fun type_name :: "val \<Rightarrow> string" where
  "type_name VNone = ''NoneType''"
| "type_name (VBool b) = ''bool''"
| "type_name (VInt i) = ''int''"
| "type_name (VFloat f) = ''float''"
| "type_name (VStr s) = ''str''"
| "type_name (VList xs) = ''list''"
| "type_name (VSlice a b) = ''slice''"
| "type_name (VObj i fs) = ''obj''"
| "type_name (VFunction ps b ln) = ''function''"
| "type_name (VBuiltin b) = ''function''"

fun of_const :: "const \<Rightarrow> val" where
  "of_const (CInt i) = VInt i"
| "of_const (CFloat f) = VFloat f"

section \<open>The symbol table\<close>

text \<open>
  \<^verbatim>\<open>class SymbolTable\<close>: a dictionary and an optional parent.  A dictionary is the list
  of its items in insertion order.
\<close>

datatype symtab = SymbolTable (parent: "symtab option") (symbols: "(string \<times> val) list")

text \<open>\<^verbatim>\<open>d[k] = v\<close> on a dictionary.\<close>

fun dict_set :: "('k \<times> 'v) list \<Rightarrow> 'k \<Rightarrow> 'v \<Rightarrow> ('k \<times> 'v) list" where
  "dict_set [] k v = [(k, v)]"
| "dict_set ((k', v') # d) k v = (if k' = k then (k, v) # d else (k', v') # dict_set d k v)"

fun getitem :: "symtab \<Rightarrow> string \<Rightarrow> error + val" where
  "getitem (SymbolTable p d) s =
     (if s \<in> fst ` set d then (case map_of d s of Some v \<Rightarrow> Inr v | None \<Rightarrow> Inl (Error KeyError (repr_str s) None))
      else (case p of
              Some q \<Rightarrow> getitem q s
            | None \<Rightarrow> Inl (Error KeyError (repr_str s) None)))"

definition setitem :: "symtab \<Rightarrow> string \<Rightarrow> val \<Rightarrow> error + symtab" where
  "setitem t s v =
     (if s \<in> fst ` set (symbols t) then
        Inl (Error TypeError (''symbol '' @ repr_str s @ '' has multiple definitions at this scope'') None)
      else Inr (SymbolTable (parent t) (dict_set (symbols t) s v)))"

section \<open>The evaluator\<close>

text \<open>
  The state of an evaluation: the symbol table that the running call of \<^verbatim>\<open>run\<close> was
  given, and for every \<^verbatim>\<open>Matching\<close> object its attributes \<^verbatim>\<open>i\<close> and \<^verbatim>\<open>row\<close>, which
  do not exist before its first combination.  A step ends in \<open>None\<close> when the model has no
  answer (the fuel of the recursion is used up, or a value is used in a way that is not
  modelled), and else in a value or an exception, with the state it leaves behind: an
  exception does not undo what was bound before it.
\<close>

record state =
  scope :: symtab
  cursor :: "nat \<Rightarrow> (nat \<times> val list) option"

type_synonym ('a, 's) eval = "'s \<Rightarrow> ((error + 'a) \<times> 's) option"

definition retE :: "'a \<Rightarrow> ('a, 's) eval" where
  "retE x = (\<lambda>st. Some (Inr x, st))"

definition raiseE :: "error \<Rightarrow> ('a, 's) eval" where
  "raiseE e = (\<lambda>st. Some (Inl e, st))"

definition noneE :: "('a, 's) eval" where
  "noneE = (\<lambda>st. None)"

definition bindE :: "('a, 's) eval \<Rightarrow> ('a \<Rightarrow> ('b, 's) eval) \<Rightarrow> ('b, 's) eval" where
  "bindE f g = (\<lambda>st. case f st of
                        None \<Rightarrow> None
                      | Some (Inl e, st1) \<Rightarrow> Some (Inl e, st1)
                      | Some (Inr x, st1) \<Rightarrow> g x st1)"

text \<open>\<^verbatim>\<open>try: ... except Exception as err: ...\<close>\<close>

definition try_except :: "('a, 's) eval \<Rightarrow> (error \<Rightarrow> ('a, 's) eval) \<Rightarrow> ('a, 's) eval" where
  "try_except f h = (\<lambda>st. case f st of
                             None \<Rightarrow> None
                           | Some (Inl e, st1) \<Rightarrow> h e st1
                           | Some (Inr x, st1) \<Rightarrow> Some (Inr x, st1))"

text \<open>A step that does not touch the state.\<close>

definition lift :: "(error + 'a) option \<Rightarrow> ('a, 's) eval" where
  "lift r = (case r of None \<Rightarrow> noneE | Some (Inl e) \<Rightarrow> raiseE e | Some (Inr x) \<Rightarrow> retE x)"

text \<open>\<^verbatim>\<open>raise RuntimeError("on line {0}, encountered {1}: {2}".format(...))\<close> in the handler
  of \<open>err\<close>.\<close>

definition wrap :: "nat option \<Rightarrow> error \<Rightarrow> error" where
  "wrap ln err = Error RuntimeError
     (''on line '' @ line_text ln @ '', encountered '' @ kind_name (ekind err) @ '': '' @ emsg err)
     (Some err)"

definition reraise :: "nat option \<Rightarrow> error \<Rightarrow> ('a, 's) eval" where
  "reraise ln err = raiseE (wrap ln err)"

text \<open>\<^verbatim>\<open>symbols[name]\<close> and \<^verbatim>\<open>symbols[name] = value\<close> on the current table.\<close>

definition lookup :: "string \<Rightarrow> (val, 'x state_scheme) eval" where
  "lookup s = (\<lambda>st. Some (getitem (scope st) s, st))"

definition bind_symbol :: "string \<Rightarrow> val \<Rightarrow> (val, 'x state_scheme) eval" where
  "bind_symbol s v = (\<lambda>st. case setitem (scope st) s v of
                              Inl e \<Rightarrow> Some (Inl e, st)
                            | Inr t \<Rightarrow> Some (Inr VNone, st\<lparr>scope := t\<rparr>))"

text \<open>Running \<open>f\<close> with \<^verbatim>\<open>SymbolTable(symbols, d)\<close> as its table.  The caller goes on with
  its own table, the parent of the new one; the result comes with the dictionary of the new
  table as \<open>f\<close> left it.\<close>

definition in_child ::
  "(string \<times> val) list \<Rightarrow> ('a, 'x state_scheme) eval \<Rightarrow> ('a \<times> (string \<times> val) list, 'x state_scheme) eval" where
  "in_child d f = (\<lambda>st.
     case f (st\<lparr>scope := SymbolTable (Some (scope st)) d\<rparr>) of
       None \<Rightarrow> None
     | Some (r, st1) \<Rightarrow>
         (case parent (scope st1) of
            None \<Rightarrow> None
          | Some p \<Rightarrow>
              Some (case r of Inl e \<Rightarrow> Inl e | Inr x \<Rightarrow> Inr (x, symbols (scope st1)),
                    st1\<lparr>scope := p\<rparr>)))"

subsection \<open>The matching engine\<close>

definition no_attribute :: "string \<Rightarrow> string \<Rightarrow> error" where
  "no_attribute ty a = Error AttributeError
     (repr_str ty @ '' object has no attribute '' @ repr_str a) None"

text \<open>\<^verbatim>\<open>Placeholder.value\<close>: \<^verbatim>\<open>self.m.row[self.n]\<close>.\<close>

definition placeholder_value :: "nat \<Rightarrow> nat \<Rightarrow> (val, 'x state_scheme) eval" where
  "placeholder_value m n = (\<lambda>st.
     case cursor st m of
       None \<Rightarrow> Some (Inl (no_attribute ''Matching'' ''row''), st)
     | Some (i, row) \<Rightarrow>
         if n < length row then Some (Inr (row ! n), st)
         else Some (Inl (Error IndexError ''tuple index out of range'' None), st))"

text \<open>\<^verbatim>\<open>node.matching.i\<close>\<close>

definition matching_i :: "nat \<Rightarrow> (nat, 'x state_scheme) eval" where
  "matching_i m = (\<lambda>st.
     case cursor st m of
       None \<Rightarrow> Some (Inl (no_attribute ''Matching'' ''i''), st)
     | Some (i, row) \<Rightarrow> Some (Inr i, st))"

text \<open>\<^verbatim>\<open>self.i, self.row = i, row\<close>\<close>

definition set_cursor :: "nat \<Rightarrow> nat \<Rightarrow> val list \<Rightarrow> (unit, 'x state_scheme) eval" where
  "set_cursor m i row = (\<lambda>st. Some (Inr (), st\<lparr>cursor := (cursor st)(m := Some (i, row))\<rparr>))"

text \<open>\<^verbatim>\<open>tuple(v)\<close>, as \<^verbatim>\<open>itertools.product\<close> does with each of its arguments.  A record
  has \<^verbatim>\<open>__getitem__\<close> and no \<^verbatim>\<open>__iter__\<close>, so it is read at the keys 0, 1, ... and the
  first read fails with \<^verbatim>\<open>KeyError(0)\<close>.\<close>

fun pool :: "val \<Rightarrow> error + val list" where
  "pool (VList xs) = Inr xs"
| "pool (VStr s) = Inr (map (\<lambda>c. VStr [c]) s)"
| "pool (VObj i fs) = Inl (Error KeyError ''0'' None)"
| "pool v = Inl (Error TypeError (repr_str (type_name v) @ '' object is not iterable'') None)"

fun pools :: "val list \<Rightarrow> error + val list list" where
  "pools [] = Inr []"
| "pools (v # vs) =
     (case pool v of
        Inl e \<Rightarrow> Inl e
      | Inr p \<Rightarrow> (case pools vs of Inl e \<Rightarrow> Inl e | Inr ps \<Rightarrow> Inr (p # ps)))"

text \<open>\<^verbatim>\<open>itertools.product\<close>, as its documentation defines it:
  \<^verbatim>\<open>result = [[]]; for pool in pools: result = [x+[y] for x in result for y in pool]\<close>.\<close>

definition product :: "'a list list \<Rightarrow> 'a list list" where
  "product ps = foldl (\<lambda>result p. concat (map (\<lambda>x. map (\<lambda>y. x @ [y]) p) result)) [[]] ps"

text \<open>\<^verbatim>\<open>[run(x, symbols) for x in xs]\<close>\<close>

fun run_list :: "('n \<Rightarrow> ('a, 's) eval) \<Rightarrow> 'n list \<Rightarrow> ('a list, 's) eval" where
  "run_list ev [] = retE []"
| "run_list ev (x # xs) = bindE (ev x) (\<lambda>v. bindE (run_list ev xs) (\<lambda>vs. retE (v # vs)))"

text \<open>The loop of \<^verbatim>\<open>Matching.run\<close> from the combination \<open>i\<close> on, its results collected
  by \<^verbatim>\<open>list(...)\<close>.\<close>

fun run_rows ::
  "(node \<Rightarrow> (val, 'x state_scheme) eval) \<Rightarrow> nat \<Rightarrow> node \<Rightarrow> nat \<Rightarrow> val list list \<Rightarrow> (val list, 'x state_scheme) eval" where
  "run_rows ev m body i [] = retE []"
| "run_rows ev m body i (row # rows) =
     bindE (set_cursor m i row) (\<lambda>_.
     bindE (ev body) (\<lambda>r.
     bindE (run_rows ev m body (Suc i) rows) (\<lambda>rs. retE (r # rs))))"

definition matching_run ::
  "(node \<Rightarrow> (val, 'x state_scheme) eval) \<Rightarrow> node matching \<Rightarrow> node \<Rightarrow> (val list, 'x state_scheme) eval" where
  "matching_run ev mt body =
     bindE (run_list ev (collections mt)) (\<lambda>evaluated.
     bindE (lift (Some (pools evaluated))) (\<lambda>ps.
       run_rows ev (mid mt) body 0 (product ps)))"

subsection \<open>Operations on values\<close>

text \<open>
  What the builtins, \<^verbatim>\<open>getattr\<close> and indexing do with the values above.  The result is
  \<open>None\<close> where the model has no answer: arithmetic on floats, comparisons other than of
  integers, attributes of values other than records and names of a record that start with
  an underscore (which reach the fields \<^verbatim>\<open>_id\<close> and \<^verbatim>\<open>_fields\<close> and the methods of
  \<^verbatim>\<open>obj\<close>).
\<close>

fun as_int :: "val \<Rightarrow> int option" where
  "as_int (VInt i) = Some i"
| "as_int (VBool b) = Some (if b then 1 else 0)"
| "as_int v = None"

fun is_float :: "val \<Rightarrow> bool" where
  "is_float (VFloat f) = True"
| "is_float v = False"

definition is_number :: "val \<Rightarrow> bool" where
  "is_number v = (as_int v \<noteq> None \<or> is_float v)"

fun truthy :: "val \<Rightarrow> bool option" where
  "truthy VNone = Some False"
| "truthy (VBool b) = Some b"
| "truthy (VInt i) = Some (i \<noteq> 0)"
| "truthy (VFloat f) = None"
| "truthy (VStr s) = Some (s \<noteq> [])"
| "truthy (VList xs) = Some (xs \<noteq> [])"
| "truthy (VSlice a b) = Some True"
| "truthy (VObj i fs) = Some True"
| "truthy (VFunction ps b ln) = Some True"
| "truthy (VBuiltin b) = Some True"

definition unsupported :: "string \<Rightarrow> val \<Rightarrow> val \<Rightarrow> error" where
  "unsupported opr a b = Error TypeError
     (''unsupported operand type(s) for '' @ opr @ '': '' @ repr_str (type_name a) @ '' and ''
        @ repr_str (type_name b)) None"

definition bad_operand :: "string \<Rightarrow> val \<Rightarrow> error" where
  "bad_operand what a = Error TypeError
     (''bad operand type for '' @ what @ '': '' @ repr_str (type_name a)) None"

definition cannot_concatenate :: "string \<Rightarrow> val \<Rightarrow> error" where
  "cannot_concatenate ty b = Error TypeError
     (''can only concatenate '' @ ty @ '' (not '' @ [dq] @ type_name b @ [dq] @ '') to '' @ ty) None"

definition py_len :: "val \<Rightarrow> (error + val) option" where
  "py_len v = (case v of
      VList xs \<Rightarrow> Some (Inr (VInt (int (length xs))))
    | VStr s \<Rightarrow> Some (Inr (VInt (int (length s))))
    | _ \<Rightarrow> Some (Inl (Error TypeError
               (''object of type '' @ repr_str (type_name v) @ '' has no len()'') None)))"

definition py_abs :: "val \<Rightarrow> (error + val) option" where
  "py_abs v = (case as_int v of
      Some i \<Rightarrow> Some (Inr (VInt (abs i)))
    | None \<Rightarrow> if is_float v then None else Some (Inl (bad_operand ''abs()'' v)))"

definition py_pos :: "val \<Rightarrow> (error + val) option" where
  "py_pos v = (case as_int v of
      Some i \<Rightarrow> Some (Inr (VInt i))
    | None \<Rightarrow> if is_float v then None else Some (Inl (bad_operand ''unary +'' v)))"

definition py_neg :: "val \<Rightarrow> (error + val) option" where
  "py_neg v = (case as_int v of
      Some i \<Rightarrow> Some (Inr (VInt (- i)))
    | None \<Rightarrow> if is_float v then None else Some (Inl (bad_operand ''unary -'' v)))"

definition py_add :: "val \<Rightarrow> val \<Rightarrow> (error + val) option" where
  "py_add a b =
     (case (as_int a, as_int b) of
        (Some i, Some j) \<Rightarrow> Some (Inr (VInt (i + j)))
      | _ \<Rightarrow>
         if is_number a \<and> is_number b then None
         else (case a of
                 VList xs \<Rightarrow> (case b of VList ys \<Rightarrow> Some (Inr (VList (xs @ ys)))
                                      | _ \<Rightarrow> Some (Inl (cannot_concatenate ''list'' b)))
               | VStr x \<Rightarrow> (case b of VStr y \<Rightarrow> Some (Inr (VStr (x @ y)))
                                    | _ \<Rightarrow> Some (Inl (cannot_concatenate ''str'' b)))
               | _ \<Rightarrow> Some (Inl (unsupported ''+'' a b))))"

definition py_sub :: "val \<Rightarrow> val \<Rightarrow> (error + val) option" where
  "py_sub a b =
     (case (as_int a, as_int b) of
        (Some i, Some j) \<Rightarrow> Some (Inr (VInt (i - j)))
      | _ \<Rightarrow> if is_number a \<and> is_number b then None else Some (Inl (unsupported ''-'' a b)))"

fun is_sequence :: "val \<Rightarrow> bool" where
  "is_sequence (VList xs) = True"
| "is_sequence (VStr s) = True"
| "is_sequence v = False"

fun repeat :: "val \<Rightarrow> int \<Rightarrow> val" where
  "repeat (VList xs) n = VList (concat (replicate (nat n) xs))"
| "repeat (VStr s) n = VStr (concat (replicate (nat n) s))"
| "repeat v n = v"

definition not_an_int :: "val \<Rightarrow> error" where
  "not_an_int b = Error TypeError
     (''can'' @ [sq] @ ''t multiply sequence by non-int of type '' @ repr_str (type_name b)) None"

definition py_mul :: "val \<Rightarrow> val \<Rightarrow> (error + val) option" where
  "py_mul a b =
     (case (as_int a, as_int b) of
        (Some i, Some j) \<Rightarrow> Some (Inr (VInt (i * j)))
      | (None, Some j) \<Rightarrow>
          if is_sequence a then Some (Inr (repeat a j))
          else if is_float a then None else Some (Inl (unsupported ''*'' a b))
      | (Some i, None) \<Rightarrow>
          if is_sequence b then Some (Inr (repeat b i))
          else if is_float b then None else Some (Inl (unsupported ''*'' a b))
      | (None, None) \<Rightarrow>
          if is_float a \<and> is_float b then None
          else if is_sequence a then Some (Inl (not_an_int b))
          else if is_sequence b then Some (Inl (not_an_int a))
          else Some (Inl (unsupported ''*'' a b)))"

definition py_compare :: "(int \<Rightarrow> int \<Rightarrow> bool) \<Rightarrow> val \<Rightarrow> val \<Rightarrow> (error + val) option" where
  "py_compare rel a b =
     (case (as_int a, as_int b) of
        (Some i, Some j) \<Rightarrow> Some (Inr (VBool (rel i j)))
      | _ \<Rightarrow> None)"

definition py_pow :: "val \<Rightarrow> val \<Rightarrow> (error + val) option" where
  "py_pow a b =
     (case (as_int a, as_int b) of
        (Some i, Some j) \<Rightarrow> if 0 \<le> j then Some (Inr (VInt (i ^ nat j))) else None
      | _ \<Rightarrow> if is_number a \<and> is_number b then None else Some (Inl (unsupported ''** or pow()'' a b)))"

text \<open>\<^verbatim>\<open>xs[i]\<close> and \<^verbatim>\<open>xs[a:b]\<close> on a list.\<close>

definition list_index :: "val list \<Rightarrow> int \<Rightarrow> (error + val) option" where
  "list_index xs i =
     (let n = int (length xs); j = (if i < 0 then i + n else i)
      in if 0 \<le> j \<and> j < n then Some (Inr (xs ! nat j))
         else Some (Inl (Error IndexError ''list index out of range'' None)))"

definition slice_bound :: "int \<Rightarrow> int \<Rightarrow> nat" where
  "slice_bound n i = nat (if i < 0 then max (i + n) 0 else min i n)"

definition list_slice :: "val list \<Rightarrow> val \<Rightarrow> val \<Rightarrow> (error + val) option" where
  "list_slice xs a b =
     (let n = int (length xs);
          lo = (if a = VNone then Some 0 else map_option (slice_bound n) (as_int a));
          hi = (if b = VNone then Some (length xs) else map_option (slice_bound n) (as_int b))
      in case (lo, hi) of
           (Some l, Some h) \<Rightarrow> Some (Inr (VList (drop l (take h xs))))
         | _ \<Rightarrow> Some (Inl (Error TypeError
                  ''slice indices must be integers or None or have an __index__ method'' None)))"

text \<open>\<^verbatim>\<open>a[i]\<close>.  Indexing a record is \<^verbatim>\<open>obj.__getitem__\<close>, a read of its dictionary.\<close>

definition py_getitem :: "val \<Rightarrow> val \<Rightarrow> (error + val) option" where
  "py_getitem a i =
     (case a of
        VList xs \<Rightarrow>
          (case i of
             VSlice lo hi \<Rightarrow> list_slice xs lo hi
           | _ \<Rightarrow> (case as_int i of
                     Some j \<Rightarrow> list_index xs j
                   | None \<Rightarrow> Some (Inl (Error TypeError
                       (''list indices must be integers or slices, not '' @ type_name i) None))))
      | VObj d fs \<Rightarrow>
          (case i of
             VStr s \<Rightarrow> (case map_of fs s of
                          Some v \<Rightarrow> Some (Inr v)
                        | None \<Rightarrow> Some (Inl (Error KeyError (repr_str s) None)))
           | VInt j \<Rightarrow> Some (Inl (Error KeyError (str_int j) None))
           | _ \<Rightarrow> None)
      | VStr s \<Rightarrow> None
      | _ \<Rightarrow> Some (Inl (Error TypeError
                 (repr_str (type_name a) @ '' object is not subscriptable'') None)))"

text \<open>\<^verbatim>\<open>getattr(a, field)\<close>.  On a record, a name that is not found in the usual way
  goes to \<^verbatim>\<open>obj.__getattr__\<close>.\<close>

definition py_getattr :: "val \<Rightarrow> string \<Rightarrow> (error + val) option" where
  "py_getattr a field =
     (case a of
        VObj d fs \<Rightarrow>
          if take 1 field = ''_'' then None
          else if field \<in> fst ` set fs then
            (case map_of fs field of Some v \<Rightarrow> Some (Inr v) | None \<Rightarrow> None)
          else Some (Inl (no_attribute ''obj'' field))
      | _ \<Rightarrow> None)"

subsection \<open>Calls\<close>

text \<open>\<^verbatim>\<open>run(arguments[i], symbols)\<close>\<close>

definition argument :: "(node \<Rightarrow> (val, 's) eval) \<Rightarrow> node list \<Rightarrow> nat \<Rightarrow> (val, 's) eval" where
  "argument ev args i = (if i < length args then ev (args ! i) else raiseE index_error)"

definition unary :: "(node \<Rightarrow> (val, 's) eval) \<Rightarrow> node list \<Rightarrow> (val \<Rightarrow> (error + val) option) \<Rightarrow> (val, 's) eval" where
  "unary ev args f = bindE (argument ev args 0) (\<lambda>a. lift (f a))"

definition binary ::
  "(node \<Rightarrow> (val, 's) eval) \<Rightarrow> node list \<Rightarrow> (val \<Rightarrow> val \<Rightarrow> (error + val) option) \<Rightarrow> (val, 's) eval" where
  "binary ev args f = bindE (argument ev args 0) (\<lambda>a. bindE (argument ev args 1) (\<lambda>b. lift (f a b)))"

text \<open>\<^verbatim>\<open>sum((run(x, symbols) for x in arguments), [])\<close>\<close>

fun union_from :: "(node \<Rightarrow> (val, 's) eval) \<Rightarrow> val \<Rightarrow> node list \<Rightarrow> (val, 's) eval" where
  "union_from ev acc [] = retE acc"
| "union_from ev acc (x # xs) =
     bindE (ev x) (\<lambda>v. bindE (lift (py_add acc v)) (\<lambda>acc'. union_from ev acc' xs))"

text \<open>The table \<^verbatim>\<open>builtins\<close>: each entry is called with the argument nodes and the table
  of the caller.\<close>

fun call_builtin :: "(node \<Rightarrow> (val, 's) eval) \<Rightarrow> builtin \<Rightarrow> node list \<Rightarrow> (val, 's) eval" where
  "call_builtin ev B_len args = unary ev args py_len"
| "call_builtin ev B_abs args = unary ev args py_abs"
| "call_builtin ev B_and args =
     bindE (argument ev args 0) (\<lambda>a. bindE (lift (map_option Inr (truthy a))) (\<lambda>t.
       if t then argument ev args 1 else retE a))"
| "call_builtin ev B_or args =
     bindE (argument ev args 0) (\<lambda>a. bindE (lift (map_option Inr (truthy a))) (\<lambda>t.
       if t then retE a else argument ev args 1))"
| "call_builtin ev B_not args =
     bindE (argument ev args 0) (\<lambda>a. bindE (lift (map_option Inr (truthy a))) (\<lambda>t.
       retE (VBool (\<not> t))))"
| "call_builtin ev B_eq args = binary ev args (py_compare (\<lambda>i j. i = j))"
| "call_builtin ev B_ne args = binary ev args (py_compare (\<lambda>i j. i \<noteq> j))"
| "call_builtin ev B_gt args = binary ev args (py_compare (\<lambda>i j. i > j))"
| "call_builtin ev B_ge args = binary ev args (py_compare (\<lambda>i j. i \<ge> j))"
| "call_builtin ev B_lt args = binary ev args (py_compare (\<lambda>i j. i < j))"
| "call_builtin ev B_le args = binary ev args (py_compare (\<lambda>i j. i \<le> j))"
| "call_builtin ev B_add args =
     (if length args = 1 then unary ev args py_pos else binary ev args py_add)"
| "call_builtin ev B_sub args =
     (if length args = 1 then unary ev args py_neg else binary ev args py_sub)"
| "call_builtin ev B_mul args = binary ev args py_mul"
| "call_builtin ev B_div args = binary ev args (\<lambda>a b. None)"
| "call_builtin ev B_pow args = binary ev args py_pow"
| "call_builtin ev B_union args = union_from ev (VList []) args"
| "call_builtin ev b args = unary ev args (\<lambda>a. None)"

definition builtins :: symtab where
  "builtins = SymbolTable None
     [(''len'', VBuiltin B_len), (''abs'', VBuiltin B_abs),
      (''and'', VBuiltin B_and), (''or'', VBuiltin B_or), (''not'', VBuiltin B_not),
      (''=='', VBuiltin B_eq), (''!='', VBuiltin B_ne), (''>'', VBuiltin B_gt),
      (''>='', VBuiltin B_ge), (''<'', VBuiltin B_lt), (''<='', VBuiltin B_le),
      (''+'', VBuiltin B_add), (''-'', VBuiltin B_sub), (''*'', VBuiltin B_mul),
      (''/'', VBuiltin B_div), (''**'', VBuiltin B_pow),
      (''sqrt'', VBuiltin B_sqrt), (''exp'', VBuiltin B_exp), (''sin'', VBuiltin B_sin),
      (''cos'', VBuiltin B_cos), (''tan'', VBuiltin B_tan), (''sinh'', VBuiltin B_sinh),
      (''cosh'', VBuiltin B_cosh), (''tanh'', VBuiltin B_tanh),
      (''union'', VBuiltin B_union)]"

text \<open>The loop \<^verbatim>\<open>for param, arg in zip(...): scope[param] = run(arg, symbols)\<close> of the
  closure, from the dictionary \<open>d\<close> on.\<close>

fun bind_parameters ::
  "(node \<Rightarrow> (val, 's) eval) \<Rightarrow> (string \<times> node) list \<Rightarrow> (string \<times> val) list \<Rightarrow> ((string \<times> val) list, 's) eval" where
  "bind_parameters ev [] d = retE d"
| "bind_parameters ev ((param, arg) # rest) d =
     bindE (ev arg) (\<lambda>v. bind_parameters ev rest (dict_set d param v))"

text \<open>The closure \<^verbatim>\<open>function(arguments, symbols)\<close> that \<^verbatim>\<open>run\<close> returns for a
  \<^verbatim>\<open>Function\<close> node: \<^verbatim>\<open>symbols\<close> is the table of the call, both for the arguments and
  as the parent of the table of the body.\<close>

definition call_function ::
  "(node \<Rightarrow> (val, 'x state_scheme) eval) \<Rightarrow> string list \<Rightarrow> node \<Rightarrow> nat option \<Rightarrow> node list
     \<Rightarrow> (val, 'x state_scheme) eval" where
  "call_function ev parameters body ln arguments =
     (if length parameters \<noteq> length arguments then
        raiseE (Error TypeError
          (''on line '' @ str_line ln @ '', function expects '' @ str_nat (length parameters)
             @ '' arguments, got '' @ str_nat (length arguments)) None)
      else bindE (bind_parameters ev (zip parameters arguments) []) (\<lambda>d.
           bindE (in_child d (ev body)) (\<lambda>(r, _). retE r)))"

definition call_value ::
  "(node \<Rightarrow> (val, 'x state_scheme) eval) \<Rightarrow> val \<Rightarrow> node list \<Rightarrow> (val, 'x state_scheme) eval" where
  "call_value ev f args =
     (case f of
        VFunction ps body ln \<Rightarrow> call_function ev ps body ln args
      | VBuiltin b \<Rightarrow> call_builtin ev b args
      | _ \<Rightarrow> raiseE (Error TypeError (repr_str (type_name f) @ '' object is not callable'') None))"

subsection \<open>\<^verbatim>\<open>run\<close>\<close>

text \<open>\<^verbatim>\<open>for x in xs: run(x, symbols)\<close>\<close>

fun run_each :: "('n \<Rightarrow> ('a, 's) eval) \<Rightarrow> 'n list \<Rightarrow> (unit, 's) eval" where
  "run_each ev [] = retE ()"
| "run_each ev (x # xs) = bindE (ev x) (\<lambda>_. run_each ev xs)"

definition run_optional :: "(node \<Rightarrow> (val, 's) eval) \<Rightarrow> node option \<Rightarrow> (val, 's) eval" where
  "run_optional ev x = (case x of None \<Rightarrow> retE VNone | Some n \<Rightarrow> ev n)"

text \<open>One call of \<^verbatim>\<open>run(node, symbols)\<close>, where \<open>ev\<close> stands for the calls of \<^verbatim>\<open>run\<close> in
  its body.\<close>

fun run_step ::
  "(node \<Rightarrow> (val, 'x state_scheme) eval) \<Rightarrow> node \<Rightarrow> (val, 'x state_scheme) eval" where
  "run_step ev (Module statements ln) = bindE (run_each ev statements) (\<lambda>_. retE VNone)"
| "run_step ev (Assignment symbol opr expression ln) =
     (case expression of
        Placeholder m n \<Rightarrow> bindE (placeholder_value m n) (bind_symbol symbol)
      | _ \<Rightarrow> bindE (ev expression) (bind_symbol symbol))"
| "run_step ev (Join expression mt ln) =
     bindE (matching_run ev mt expression) (\<lambda>rs. retE (VList rs))"
| "run_step ev (Pattern assignments mt c ln) =
     bindE (case mt of
              None \<Rightarrow> retE None
            | Some m \<Rightarrow> bindE (matching_i m) (\<lambda>i. retE (Some i))) (\<lambda>n.
     bindE (in_child [] (run_each ev assignments)) (\<lambda>(_, out).
       retE (VObj (ID c (''Line'' @ str_line ln) n) out)))"
| "run_step ev (Function parameters body ln) = retE (VFunction parameters body ln)"
| "run_step ev (Block statements expression ln) =
     bindE (in_child [] (bindE (run_each ev statements) (\<lambda>_. ev expression))) (\<lambda>(r, _). retE r)"
| "run_step ev (Call function arguments ln) =
     try_except (bindE (ev function) (\<lambda>f. call_value ev f arguments)) (reraise ln)"
| "run_step ev (Subscript object index ln) =
     try_except (bindE (ev object) (\<lambda>a. bindE (ev index) (\<lambda>i. lift (py_getitem a i)))) (reraise ln)"
| "run_step ev (Attribute object field ln) =
     try_except (bindE (ev object) (\<lambda>a. lift (py_getattr a field))) (reraise ln)"
| "run_step ev (Slice start stop ln) =
     bindE (run_optional ev start) (\<lambda>a. bindE (run_optional ev stop) (\<lambda>b. retE (VSlice a b)))"
| "run_step ev (Symbol symbol ln) = try_except (lookup symbol) (reraise ln)"
| "run_step ev (Literal v ln) = retE (of_const v)"
| "run_step ev (Placeholder m n) =
     raiseE (Error AssertionError
       (''<class '' @ repr_str ''__main__.Matching.Placeholder'' @ ''>'') None)"

text \<open>\<^verbatim>\<open>run\<close>, with a bound on the depth of its recursion.\<close>

primrec run :: "nat \<Rightarrow> node \<Rightarrow> (val, 'x state_scheme) eval" where
  "run 0 = (\<lambda>node. noneE)"
| "run (Suc k) = run_step (run k)"

section \<open>Notions used to state the properties\<close>

text \<open>The state of a build before anything was built, and of an evaluation that starts
  with the table \<open>t\<close>: no \<^verbatim>\<open>Matching\<close> has the attributes \<^verbatim>\<open>i\<close> and \<^verbatim>\<open>row\<close> yet.\<close>

definition fresh_tstate :: tstate where
  "fresh_tstate = \<lparr>next_class = 0, next_matching = 0, colls = (\<lambda>m. [])\<rparr>"

definition start_state :: "symtab \<Rightarrow> state" where
  "start_state t = \<lparr>scope = t, cursor = (\<lambda>m. None)\<rparr>"

text \<open>A table \<open>t'\<close> extends \<open>t\<close> when it is the same chain of tables and every dictionary
  of \<open>t'\<close> starts with the items of the one in \<open>t\<close>, and has no name twice if the one in
  \<open>t\<close> has none: everything that was bound is still bound, to the same value, in the same
  table, and nothing was bound a second time.\<close>

fun extends :: "symtab \<Rightarrow> symtab \<Rightarrow> bool" where
  "extends (SymbolTable p d) (SymbolTable p' d') =
     (take (length d) d' = d \<and> (distinct (map fst d) \<longrightarrow> distinct (map fst d')) \<and>
      (case p of
         None \<Rightarrow> p' = None
       | Some q \<Rightarrow> (case p' of None \<Rightarrow> False | Some q' \<Rightarrow> extends q q')))"

text \<open>A step only adds bindings when the table it leaves extends the one it started with.\<close>

definition only_adds :: "('a, 'x state_scheme) eval \<Rightarrow> bool" where
  "only_adds f = (\<forall>st r st'. f st = Some (r, st') \<longrightarrow> extends (scope st) (scope st'))"

text \<open>The classes of the \<^verbatim>\<open>Pattern\<close> nodes of a tree, one entry for each node, the
  candidates of a \<^verbatim>\<open>Join\<close> included.\<close>

fun pattern_classes :: "node \<Rightarrow> nat list" where
  "pattern_classes (Module xs ln) = concat (map pattern_classes xs)"
| "pattern_classes (Assignment s opr e ln) = pattern_classes e"
| "pattern_classes (Pattern xs m c ln) = c # concat (map pattern_classes xs)"
| "pattern_classes (Join e (Matching m cs) ln) = pattern_classes e @ concat (map pattern_classes cs)"
| "pattern_classes (Function ps b ln) = pattern_classes b"
| "pattern_classes (Block xs e ln) = concat (map pattern_classes xs) @ pattern_classes e"
| "pattern_classes (Call f xs ln) = pattern_classes f @ concat (map pattern_classes xs)"
| "pattern_classes (Subscript a i ln) = pattern_classes a @ pattern_classes i"
| "pattern_classes (Attribute a f ln) = pattern_classes a"
| "pattern_classes (Slice a b ln) =
     (case a of None \<Rightarrow> [] | Some x \<Rightarrow> pattern_classes x)
       @ (case b of None \<Rightarrow> [] | Some y \<Rightarrow> pattern_classes y)"
| "pattern_classes (Symbol s ln) = []"
| "pattern_classes (Literal c ln) = []"
| "pattern_classes (Placeholder m n) = []"

fun tval_classes :: "tval \<Rightarrow> nat list" where
  "tval_classes (TNode x) = pattern_classes x"
| "tval_classes (TNodes xs) = concat (map pattern_classes xs)"
| "tval_classes (TNames ps) = []"

text \<open>A collaborator that counts evaluations: an evaluator that behaves as \<open>ev\<close> and
  counts, in a field of the state that \<open>ev\<close> does not know, how often it is handed the
  node \<open>c\<close>.\<close>

record counted = state +
  evaluations :: nat

definition counting ::
  "node \<Rightarrow> (node \<Rightarrow> (val, 'x counted_scheme) eval) \<Rightarrow> node \<Rightarrow> (val, 'x counted_scheme) eval" where
  "counting c ev x = (\<lambda>st. ev x (if x = c then st\<lparr>evaluations := Suc (evaluations st)\<rparr> else st))"

text \<open>The dictionary \<^verbatim>\<open>scope\<close> of a call of a function value after its loop, when the
  arguments have evaluated to \<open>vs\<close>.\<close>

definition parameter_dict :: "string list \<Rightarrow> val list \<Rightarrow> (string \<times> val) list" where
  "parameter_dict ps vs = foldl (\<lambda>d (p, v). dict_set d p v) [] (zip ps vs)"

text \<open>A step keeps the count when it leaves the counter of the collaborator as it was.\<close>

definition keeps_count :: "('a, 'x counted_scheme) eval \<Rightarrow> bool" where
  "keeps_count f = (\<forall>st r st'. f st = Some (r, st') \<longrightarrow> evaluations st' = evaluations st)"

text \<open>The example of a join: \<^verbatim>\<open>join {xi ~ x; yi ~ y}\<close> with three candidates for \<^verbatim>\<open>x\<close> and
  two for \<^verbatim>\<open>y\<close>, as \<^verbatim>\<open>toast\<close> builds it.\<close>

definition example_scope :: symtab where
  "example_scope = SymbolTable None
     [(''x'', VList [VInt 1, VInt 2, VInt 3]), (''y'', VList [VStr ''A'', VStr ''B''])]"

definition example_matching :: "node matching" where
  "example_matching = Matching 0 [Symbol ''x'' None, Symbol ''y'' None]"

definition example_pattern :: node where
  "example_pattern = Pattern [Assignment ''xi'' ''~'' (Placeholder 0 0) None,
                              Assignment ''yi'' ''~'' (Placeholder 0 1) None] (Some 0) 0 None"

definition example_records :: "val list" where
  "example_records =
     [VObj (ID 0 ''LineNone'' (Some 0)) [(''xi'', VInt 1), (''yi'', VStr ''A'')],
      VObj (ID 0 ''LineNone'' (Some 1)) [(''xi'', VInt 1), (''yi'', VStr ''B'')],
      VObj (ID 0 ''LineNone'' (Some 2)) [(''xi'', VInt 2), (''yi'', VStr ''A'')],
      VObj (ID 0 ''LineNone'' (Some 3)) [(''xi'', VInt 2), (''yi'', VStr ''B'')],
      VObj (ID 0 ''LineNone'' (Some 4)) [(''xi'', VInt 3), (''yi'', VStr ''A'')],
      VObj (ID 0 ''LineNone'' (Some 5)) [(''xi'', VInt 3), (''yi'', VStr ''B'')]]"

definition counted_start :: "symtab \<Rightarrow> counted" where
  "counted_start t = \<lparr>scope = t, cursor = (\<lambda>m. None), evaluations = 0\<rparr>"

section \<open>Properties\<close>

subsection \<open>The symbol table\<close>

lemma dict_set_keys: "fst ` set (dict_set d k v) = insert k (fst ` set d)"
  by (induction d) (force split: if_splits)+

lemma map_of_dict_set: "map_of (dict_set d k v) k' = (if k' = k then Some v else map_of d k')"
  by (induction d) auto

text \<open>
  Claim C6.  Binding a name in a table fails exactly when the name is already bound in that
  same table, whatever the old and the new value are, and the failure is the \<^verbatim>\<open>TypeError\<close>
  of \<^verbatim>\<open>SymbolTable.__setitem__\<close>.  Binding a name that is not bound in the table itself
  succeeds, also when an ancestor binds it: the table keeps its parent, which is not
  changed, a lookup of the name in the table gives the new value, and the other names are
  looked up as before.
\<close>

theorem bind_single_assignment:
  "((\<exists>e. setitem t s v = Inl e) \<longleftrightarrow> s \<in> fst ` set (symbols t)) \<and>
   (\<forall>e. setitem t s v = Inl e \<longrightarrow> ekind e = TypeError) \<and>
   (s \<notin> fst ` set (symbols t) \<longrightarrow>
      (\<exists>t'. setitem t s v = Inr t' \<and> parent t' = parent t \<and> getitem t' s = Inr v
         \<and> (\<forall>s'. s' \<noteq> s \<longrightarrow> getitem t' s' = getitem t s')))"
  by (cases t) (auto simp: setitem_def dict_set_keys map_of_dict_set)

theorem bind_single_assignment_witness:
  "setitem (SymbolTable (Some (SymbolTable None [(''x'', VInt 1)])) [(''y'', VInt 5)]) ''y'' (VInt 5)
     = Inl (Error TypeError (''symbol '' @ repr_str ''y'' @ '' has multiple definitions at this scope'') None)
   \<and> setitem (SymbolTable (Some (SymbolTable None [(''x'', VInt 1)])) [(''y'', VInt 5)]) ''x'' (VInt 2)
     = Inr (SymbolTable (Some (SymbolTable None [(''x'', VInt 1)])) [(''y'', VInt 5), (''x'', VInt 2)])
   \<and> getitem (SymbolTable (Some (SymbolTable None [(''x'', VInt 1)])) [(''y'', VInt 5), (''x'', VInt 2)]) ''x''
     = Inr (VInt 2)
   \<and> getitem (SymbolTable None [(''x'', VInt 1)]) ''x'' = Inr (VInt 1)"
  using bind_single_assignment
    [of "SymbolTable (Some (SymbolTable None [(''x'', VInt 1)])) [(''y'', VInt 5)]" "''x''" "VInt 2"]
  by (simp add: setitem_def)

subsection \<open>Failures that cross a call, a subscript or an attribute\<close>

lemma try_except_Inl:
  "try_except f (reraise ln) st = Some (Inl e, st') \<longleftrightarrow> (\<exists>c. f st = Some (Inl c, st') \<and> e = wrap ln c)"
  by (auto simp: try_except_def reraise_def raiseE_def split: option.splits sum.splits prod.splits)

text \<open>
  Claim C4.  The evaluation of a \<^verbatim>\<open>Call\<close>, \<^verbatim>\<open>Subscript\<close> or \<^verbatim>\<open>Attribute\<close> node fails
  exactly when what it does inside its \<^verbatim>\<open>try\<close> fails, and then with \<open>wrap ln c\<close>: a
  \<^verbatim>\<open>RuntimeError\<close> with the line of the node, the class name and the message of the
  failure \<open>c\<close> in its message, and \<open>c\<close> itself as its context.  In particular a failure of
  the callee or of the object is reported that way, and a failure that crosses a chain of
  three such nodes is reported by the outermost node with its line, the reports of the
  inner nodes and the first failure following as contexts.
\<close>

theorem failures_are_wrapped:
  "(run_step ev (Call f args ln) st = Some (Inl e, st') \<longleftrightarrow>
      (\<exists>c. bindE (ev f) (\<lambda>fv. call_value ev fv args) st = Some (Inl c, st') \<and> e = wrap ln c)) \<and>
   (run_step ev (Subscript a i ln) st = Some (Inl e, st') \<longleftrightarrow>
      (\<exists>c. bindE (ev a) (\<lambda>av. bindE (ev i) (\<lambda>iv. lift (py_getitem av iv))) st = Some (Inl c, st')
           \<and> e = wrap ln c)) \<and>
   (run_step ev (Attribute a fld ln) st = Some (Inl e, st') \<longleftrightarrow>
      (\<exists>c. bindE (ev a) (\<lambda>av. lift (py_getattr av fld)) st = Some (Inl c, st') \<and> e = wrap ln c)) \<and>
   (ev f st = Some (Inl c, st') \<longrightarrow> run_step ev (Call f args ln) st = Some (Inl (wrap ln c), st')) \<and>
   (ev a st = Some (Inl c, st') \<longrightarrow> run_step ev (Subscript a i ln) st = Some (Inl (wrap ln c), st')) \<and>
   (ev a st = Some (Inl c, st') \<longrightarrow> run_step ev (Attribute a fld ln) st = Some (Inl (wrap ln c), st')) \<and>
   (run k x st = Some (Inl c, st') \<longrightarrow>
      run (Suc (Suc (Suc k))) (Attribute (Call (Subscript x i l3) args l2) fld l1) st
        = Some (Inl (wrap l1 (wrap l2 (wrap l3 c))), st')) \<and>
   ekind (wrap ln c) = RuntimeError \<and> econtext (wrap ln c) = Some c \<and>
   emsg (wrap ln c) = ''on line '' @ line_text ln @ '', encountered '' @ kind_name (ekind c) @ '': '' @ emsg c"
  by (auto simp: try_except_Inl) (auto simp: try_except_def reraise_def raiseE_def bindE_def wrap_def)

theorem failures_are_wrapped_witness:
  "run 1 (Symbol ''nope'' (Some 7)) (start_state (SymbolTable None []))
     = Some (Inl (wrap (Some 7) (Error KeyError (repr_str ''nope'') None)), start_state (SymbolTable None []))
   \<and> run 4 (Attribute (Call (Subscript (Symbol ''nope'' (Some 7)) (Literal (CInt 0) (Some 7)) (Some 7))
                          [] (Some 8)) ''a'' (Some 9))
        (start_state (SymbolTable None []))
     = Some (Inl (wrap (Some 9) (wrap (Some 8) (wrap (Some 7)
               (wrap (Some 7) (Error KeyError (repr_str ''nope'') None))))),
             start_state (SymbolTable None []))"
proof -
  let ?s = "start_state (SymbolTable None [])"
  have h: "run 1 (Symbol ''nope'' (Some 7)) ?s
     = Some (Inl (wrap (Some 7) (Error KeyError (repr_str ''nope'') None)), ?s)"
    by (simp add: try_except_def lookup_def reraise_def raiseE_def start_state_def)
  from failures_are_wrapped [where ev = "run 0" and f = "Symbol ''nope'' (Some 7)"
      and a = "Symbol ''nope'' (Some 7)" and ln = "Some 7"
      and e = "wrap (Some 7) (Error KeyError (repr_str ''nope'') None)"
      and st = ?s and st' = ?s and k = 1 and x = "Symbol ''nope'' (Some 7)"
      and c = "wrap (Some 7) (Error KeyError (repr_str ''nope'') None)" and i = "Literal (CInt 0) (Some 7)"
      and ?l3.0 = "Some 7" and args = "[]" and ?l2.0 = "Some 8" and fld = "''a''" and ?l1.0 = "Some 9"] h
  show ?thesis by (simp add: numeral_eq_Suc)
qed

subsection \<open>The operators of a match\<close>

lemmas fmt_defs = py_format_def emit_def format_field_def nat_of_digits_def fetch_arg_def

text \<open>The template of the message has the field \<^verbatim>\<open>{...}\<close> after \<^verbatim>\<open>{0}\<close>, so
  \<^verbatim>\<open>format\<close> raises before \<^verbatim>\<open>SyntaxError\<close> is built.\<close>

lemma no_match_error_raises:
  "opr \<in> {''~'', ''~~'', ''!~'', ''!~~''} \<Longrightarrow>
   no_match_error opr st = Some (Inl (Error ValueError
      ''cannot switch from manual field specification to automatic field numbering'' None))"
  by (auto simp: no_match_error_def fmt_defs raiseB_def)

lemma opname_match:
  "d \<in> {''symmetric'', ''allsymmetric'', ''asymmetric'', ''allasymmetric''} \<Longrightarrow>
   \<exists>opr. opname d = Some opr \<and> opr \<in> {''~'', ''~~'', ''!~'', ''!~~''}"
  by (auto simp: opname_def)

lemma toast_match_node:
  "d \<in> {''symmetric'', ''allsymmetric'', ''asymmetric'', ''allasymmetric''} \<Longrightarrow>
   toast_node d cs ts m =
     (case opname d of
          None \<Rightarrow> raiseB (Error KeyError (repr_str d) None)
        | Some opr \<Rightarrow>
            (case m of
               None \<Rightarrow> no_match_error opr
             | Some mt \<Rightarrow>
                 bindB (child cs 0) (\<lambda>c0.
                 bindB (child ts 1) (\<lambda>t.
                 bindB (t (Some mt)) (\<lambda>v.
                   case (c0, v) of
                     (Token name l, TNode x) \<Rightarrow>
                       bindB (replace mt x) (\<lambda>ph.
                         retB (TNode (Assignment name opr ph (line_of ph))))
                   | _ \<Rightarrow> noneB)))))"
  by (auto simp: toast_node_def)

lemma match_operator_outside_is_a_ValueError:
  "toast (Tree ''symmetric'' cs) None st = Some (Inl (Error ValueError
      ''cannot switch from manual field specification to automatic field numbering'' None))"
  by (simp add: toast_match_node opname_def no_match_error_raises)

text \<open>
  Claim C3, as the code has it.  With no matching, building a node of one of the four
  operators fails.  With a matching \<open>m\<close>, and when the right-hand side builds to a node
  \<open>x\<close>, the result is an assignment that keeps the operator itself (\<^verbatim>\<open>~\<close>, \<^verbatim>\<open>~~\<close>,
  \<^verbatim>\<open>!~\<close> or \<^verbatim>\<open>!~~\<close>) and has as its expression the placeholder for the place at which
  \<open>x\<close> has been appended to the candidates of \<open>m\<close>.
\<close>

theorem match_operators_need_a_matching:
  assumes "d \<in> {''symmetric'', ''allsymmetric'', ''asymmetric'', ''allasymmetric''}"
  shows "(\<exists>e. toast (Tree d cs) None st = Some (Inl e)) \<and>
         (\<exists>opr. opname d = Some opr \<and> opr \<in> {''~'', ''~~'', ''!~'', ''!~~''} \<and>
            (\<forall>x st1. toast rhs (Some m) st = Some (Inr (TNode x, st1)) \<longrightarrow>
               toast (Tree d (Token name l # rhs # rest)) (Some m) st
                 = Some (Inr (TNode (Assignment name opr (Placeholder m (length (colls st1 m))) None),
                              st1\<lparr>colls := (colls st1)(m := colls st1 m @ [x])\<rparr>))))"
proof -
  from opname_match [OF assms] obtain opr
    where o: "opname d = Some opr" "opr \<in> {''~'', ''~~'', ''!~'', ''!~~''}"
    by blast
  have 1: "\<exists>e. toast (Tree d cs) None st = Some (Inl e)"
    by (simp add: toast_match_node [OF assms] o no_match_error_raises [OF o(2)])
  have 2: "toast (Tree d (Token name l # rhs # rest)) (Some m) st
                 = Some (Inr (TNode (Assignment name opr (Placeholder m (length (colls st1 m))) None),
                              st1\<lparr>colls := (colls st1)(m := colls st1 m @ [x])\<rparr>))"
    if "toast rhs (Some m) st = Some (Inr (TNode x, st1))" for x st1
    using that by (simp add: toast_match_node [OF assms] o bindB_def child_def retB_def replace_def)
  from 1 2 o show ?thesis by blast
qed

text \<open>The claim as it was stated asks for the operator \<^verbatim>\<open>=\<close> in the assignment that is
  built: the operator of the source text is kept.\<close>

theorem match_operator_kept_counterexample:
  "toast (Tree ''symmetric'' [Token ''xi'' 3, Tree ''symbol'' [Token ''x'' 3]]) (Some 0) fresh_tstate
     = Some (Inr (TNode (Assignment ''xi'' ''~'' (Placeholder 0 0) None),
                  fresh_tstate\<lparr>colls := (colls fresh_tstate)(0 := [Symbol ''x'' (Some 3)])\<rparr>))
   \<and> ''~'' \<noteq> ''=''"
  by (simp add: toast_node_def opname_def bindB_def child_def retB_def replace_def fresh_tstate_def)

theorem match_operators_need_a_matching_witness:
  "(\<exists>e. toast (Tree ''symmetric'' [Token ''xi'' 3, Tree ''symbol'' [Token ''x'' 3]]) None fresh_tstate
          = Some (Inl e))
   \<and> toast (Tree ''symmetric'' [Token ''xi'' 3, Tree ''symbol'' [Token ''x'' 3]]) (Some 0) fresh_tstate
     = Some (Inr (TNode (Assignment ''xi'' ''~'' (Placeholder 0 0) None),
                  fresh_tstate\<lparr>colls := (colls fresh_tstate)(0 := [Symbol ''x'' (Some 3)])\<rparr>))"
proof -
  have h: "toast (Tree ''symbol'' [Token ''x'' 3]) (Some 0) fresh_tstate
             = Some (Inr (TNode (Symbol ''x'' (Some 3)), fresh_tstate))"
    by (simp add: toast_node_def bindB_def child_def retB_def)
  have d: "''symmetric'' \<in> {''symmetric'', ''allsymmetric'', ''asymmetric'', ''allasymmetric''}"
    by simp
  from match_operators_need_a_matching
         [OF d, of "[Token ''xi'' 3, Tree ''symbol'' [Token ''x'' 3]]" fresh_tstate
            "Tree ''symbol'' [Token ''x'' 3]" 0 "''xi''" 3 "[]"] h
  show ?thesis by (auto simp: opname_def fresh_tstate_def)
qed

subsection \<open>The boolean builtins\<close>

text \<open>
  Claim C9.  A call whose callee evaluates to the builtin \<^verbatim>\<open>and\<close>, \<^verbatim>\<open>or\<close> or
  \<^verbatim>\<open>not\<close> hands the argument nodes over unevaluated.  When the first operand of
  \<^verbatim>\<open>and\<close> is falsy, or the first operand of \<^verbatim>\<open>or\<close> is truthy, the result is that
  operand and the state is the one after its evaluation, whatever the second operand \<open>y\<close>
  is: \<open>y\<close> is not evaluated.  Otherwise the result is that of evaluating \<open>y\<close>.  \<^verbatim>\<open>not\<close>
  gives the negated truth value of its operand.
\<close>

theorem boolean_builtins_short_circuit:
  assumes "ev f st = Some (Inr (VBuiltin b), st1)" and "ev x st1 = Some (Inr v, st2)"
  shows "(b = B_and \<and> truthy v = Some False \<longrightarrow> run_step ev (Call f [x, y] ln) st = Some (Inr v, st2)) \<and>
         (b = B_or \<and> truthy v = Some True \<longrightarrow> run_step ev (Call f [x, y] ln) st = Some (Inr v, st2)) \<and>
         (b = B_and \<and> truthy v = Some True \<longrightarrow>
            run_step ev (Call f [x, y] ln) st = try_except (ev y) (reraise ln) st2) \<and>
         (b = B_or \<and> truthy v = Some False \<longrightarrow>
            run_step ev (Call f [x, y] ln) st = try_except (ev y) (reraise ln) st2) \<and>
         (b = B_not \<longrightarrow> (\<forall>t. truthy v = Some t \<longrightarrow>
            run_step ev (Call f [x] ln) st = Some (Inr (VBool (\<not> t)), st2)))"
  using assms
  by (auto simp: try_except_def bindE_def call_value_def argument_def lift_def retE_def
        split: option.splits sum.splits prod.splits)

theorem boolean_builtins_short_circuit_witness:
  "(\<exists>e. run 1 (Symbol ''nope'' None) (start_state builtins) = Some (Inl e, start_state builtins))
   \<and> run 2 (Call (Symbol ''and'' None) [Literal (CInt 0) None, Symbol ''nope'' None] None)
        (start_state builtins)
     = Some (Inr (VInt 0), start_state builtins)"
proof -
  let ?s = "start_state builtins"
  have f: "run 1 (Symbol ''and'' None) ?s = Some (Inr (VBuiltin B_and), ?s)"
    by (simp add: try_except_def lookup_def start_state_def builtins_def)
  have x: "run 1 (Literal (CInt 0) None) ?s = Some (Inr (VInt 0), ?s)"
    by (simp add: retE_def)
  have n: "\<exists>e. run 1 (Symbol ''nope'' None) ?s = Some (Inl e, ?s)"
    by (simp add: try_except_def lookup_def start_state_def builtins_def reraise_def raiseE_def)
  from boolean_builtins_short_circuit
         [where ev = "run 1" and f = "Symbol ''and'' None" and st = ?s and ?st1.0 = ?s and ?st2.0 = ?s
            and b = B_and and x = "Literal (CInt 0) None" and v = "VInt 0"
            and y = "Symbol ''nope'' None" and ln = None] f x n
  show ?thesis by (simp add: numeral_eq_Suc)
qed

subsection \<open>Function values\<close>

lemma run_list_length:
  "run_list ev xs st = Some (Inr vs, st') \<Longrightarrow> length vs = length xs"
  by (induction xs arbitrary: st vs)
     (auto simp: retE_def bindE_def split: option.splits sum.splits prod.splits)

lemma bind_parameters_run_list:
  "length ps = length args \<Longrightarrow>
   bind_parameters ev (zip ps args) d =
     bindE (run_list ev args) (\<lambda>vs. retE (foldl (\<lambda>d (p, v). dict_set d p v) d (zip ps vs)))"
proof (induction ps args arbitrary: d rule: list_induct2)
  case Nil
  then show ?case by (auto simp: bindE_def retE_def)
next
  case (Cons p ps a args)
  show ?case
    by (rule ext) (auto simp: Cons.IH bindE_def retE_def split: option.splits sum.splits prod.splits)
qed

lemma foldl_dict_set_keys:
  "fst ` set (foldl (\<lambda>d (p, v). dict_set d p v) d zs) = fst ` set d \<union> fst ` set zs"
proof (induction zs arbitrary: d)
  case Nil
  then show ?case by simp
next
  case (Cons z zs)
  obtain p v where z: "z = (p, v)" by (cases z)
  show ?case by (auto simp: z Cons.IH dict_set_keys)
qed

lemma foldl_dict_set_map_of:
  "distinct (map fst zs) \<Longrightarrow>
   map_of (foldl (\<lambda>d (p, v). dict_set d p v) d zs) k =
     (case map_of zs k of Some v \<Rightarrow> Some v | None \<Rightarrow> map_of d k)"
proof (induction zs arbitrary: d)
  case Nil
  then show ?case by simp
next
  case (Cons z zs)
  obtain p v where z: "z = (p, v)" by (cases z)
  from Cons.prems have d: "distinct (map fst zs)" and p: "p \<notin> fst ` set zs" by (auto simp: z)
  from p have "map_of zs p = None" by (simp add: map_of_eq_None_iff)
  then show ?case by (simp add: z Cons.IH [OF d] map_of_dict_set split: option.splits)
qed

lemma parameter_dict_keys: "length ps = length vs \<Longrightarrow> fst ` set (parameter_dict ps vs) = set ps"
proof -
  assume l: "length ps = length vs"
  have "fst ` set (zip ps vs) = set (map fst (zip ps vs))" by simp
  also have "\<dots> = set ps" using l by simp
  finally show ?thesis by (simp add: parameter_dict_def foldl_dict_set_keys)
qed

lemma parameter_dict_nth:
  assumes "length ps = length vs" "distinct ps" "i < length ps"
  shows "map_of (parameter_dict ps vs) (ps ! i) = Some (vs ! i)"
proof -
  have "distinct (map fst (zip ps vs))" using assms by simp
  then show ?thesis
    using assms by (simp add: parameter_dict_def foldl_dict_set_map_of map_of_zip_nth)
qed

text \<open>
  Claim C1, as the code has it.  The value of a \<^verbatim>\<open>Function\<close> node is the same in every
  scope: it holds the parameters, the body and the line, and nothing of the scope it was
  built in.  A call with as many arguments as parameters, whose arguments evaluate in the
  scope \<open>T\<close> of the call to \<open>vs\<close> and leave the state \<open>T1\<close>, evaluates the body in a new
  table whose dictionary binds the parameters to \<open>vs\<close> and whose parent is the table of the
  call; the caller then goes on with its own table.  So a name of the body that is not a
  parameter is looked up in the chain of the call.
\<close>

theorem function_body_runs_in_the_scope_of_the_call:
  assumes "length ps = length args" and "run_list (run (Suc k)) args T = Some (Inr vs, T1)"
  shows "run (Suc k) (Function ps body ln) S = Some (Inr (VFunction ps body ln), S) \<and>
         call_value (run (Suc k)) (VFunction ps body ln) args T =
           (case run (Suc k) body (T1\<lparr>scope := SymbolTable (Some (scope T1)) (parameter_dict ps vs)\<rparr>) of
              None \<Rightarrow> None
            | Some (r, T2) \<Rightarrow>
                (case parent (scope T2) of None \<Rightarrow> None | Some p \<Rightarrow> Some (r, T2\<lparr>scope := p\<rparr>))) \<and>
         (distinct ps \<longrightarrow> (\<forall>i<length ps. map_of (parameter_dict ps vs) (ps ! i) = Some (vs ! i))) \<and>
         (y \<notin> set ps \<longrightarrow>
           call_value (run (Suc k)) (VFunction ps (Symbol y l) ln) args T =
             Some (case getitem (scope T1) y of Inl e \<Rightarrow> Inl (wrap l e) | Inr v \<Rightarrow> Inr v, T1))"
proof -
  have len: "length vs = length args" using assms(2) by (rule run_list_length)
  have 1: "run (Suc k) (Function ps body ln) S = Some (Inr (VFunction ps body ln), S)"
    by (simp add: retE_def)
  have call: "call_value (run (Suc k)) (VFunction ps b ln) args T =
           (case run (Suc k) b (T1\<lparr>scope := SymbolTable (Some (scope T1)) (parameter_dict ps vs)\<rparr>) of
              None \<Rightarrow> None
            | Some (r, T2) \<Rightarrow>
                (case parent (scope T2) of None \<Rightarrow> None | Some p \<Rightarrow> Some (r, T2\<lparr>scope := p\<rparr>)))" for b
    using assms
    by (auto simp del: run.simps simp: call_value_def call_function_def bind_parameters_run_list
          parameter_dict_def bindE_def retE_def in_child_def split: option.splits sum.splits prod.splits)
  have 3: "distinct ps \<longrightarrow> (\<forall>i<length ps. map_of (parameter_dict ps vs) (ps ! i) = Some (vs ! i))"
    using parameter_dict_nth [of ps vs] len assms(1) by simp
  have 4: "y \<notin> set ps \<longrightarrow>
           call_value (run (Suc k)) (VFunction ps (Symbol y l) ln) args T =
             Some (case getitem (scope T1) y of Inl e \<Rightarrow> Inl (wrap l e) | Inr v \<Rightarrow> Inr v, T1)"
  proof
    assume y: "y \<notin> set ps"
    have k: "y \<notin> fst ` set (parameter_dict ps vs)"
      using y parameter_dict_keys [of ps vs] len assms(1) by simp
    show "call_value (run (Suc k)) (VFunction ps (Symbol y l) ln) args T =
             Some (case getitem (scope T1) y of Inl e \<Rightarrow> Inl (wrap l e) | Inr v \<Rightarrow> Inr v, T1)"
      unfolding call
      by (simp add: try_except_def lookup_def reraise_def raiseE_def k split: sum.splits)
  qed
  from 1 call [of body] 3 4 show ?thesis by blast
qed

theorem function_body_runs_in_the_scope_of_the_call_witness:
  "call_value (run 1) (VFunction [''a''] (Symbol ''y'' None) None) [Literal (CInt 7) None]
      (start_state (SymbolTable None [(''y'', VInt 2)]))
     = Some (Inr (VInt 2), start_state (SymbolTable None [(''y'', VInt 2)]))
   \<and> map_of (parameter_dict [''a''] [VInt 7]) ''a'' = Some (VInt 7)"
proof -
  let ?T = "start_state (SymbolTable None [(''y'', VInt 2)])"
  have l: "length [''a''] = length [Literal (CInt 7) None]" by simp
  have r: "run_list (run (Suc 0)) [Literal (CInt 7) None] ?T = Some (Inr [VInt 7], ?T)"
    by (simp add: bindE_def retE_def)
  have y: "''y'' \<notin> set [''a'']" by simp
  from function_body_runs_in_the_scope_of_the_call [OF l r, of "Symbol ''y'' None" None ?T "''y''" None] y
  show ?thesis by (simp add: start_state_def try_except_def lookup_def parameter_dict_def)
qed

text \<open>The claim as it was stated has the names of the body resolved in the scope in which
  the function was built.  A function built where \<^verbatim>\<open>y\<close> is 1 and called from a child
  scope that binds \<^verbatim>\<open>y\<close> to 2 returns 2; so does the program
  \<^verbatim>\<open>y = 1; f() = y; r = {y = 2; f()}\<close>, which binds \<^verbatim>\<open>r\<close> to 2.\<close>

theorem lexical_closure_counterexample:
  "run 1 (Function [] (Symbol ''y'' None) None) (start_state (SymbolTable None [(''y'', VInt 1)]))
     = Some (Inr (VFunction [] (Symbol ''y'' None) None), start_state (SymbolTable None [(''y'', VInt 1)]))
   \<and> getitem (SymbolTable None [(''y'', VInt 1)]) ''y'' = Inr (VInt 1)
   \<and> call_value (run 1) (VFunction [] (Symbol ''y'' None) None) []
        (start_state (SymbolTable (Some (SymbolTable None [(''y'', VInt 1)])) [(''y'', VInt 2)]))
     = Some (Inr (VInt 2),
             start_state (SymbolTable (Some (SymbolTable None [(''y'', VInt 1)])) [(''y'', VInt 2)]))
   \<and> run 5 (Module
        [Assignment ''y'' ''='' (Literal (CInt 1) (Some 1)) (Some 1),
         Assignment ''f'' ''='' (Function [] (Symbol ''y'' (Some 2)) (Some 2)) (Some 2),
         Assignment ''r'' ''=''
           (Block [Assignment ''y'' ''='' (Literal (CInt 2) (Some 3)) (Some 3)]
                  (Call (Symbol ''f'' (Some 3)) [] (Some 3)) (Some 3)) (Some 3)] (Some 1))
        (start_state (SymbolTable None []))
     = Some (Inr VNone, start_state (SymbolTable None
          [(''y'', VInt 1), (''f'', VFunction [] (Symbol ''y'' (Some 2)) (Some 2)), (''r'', VInt 2)]))"
  by (simp add: numeral_eq_Suc start_state_def retE_def bindE_def call_value_def call_function_def
        in_child_def try_except_def lookup_def bind_symbol_def setitem_def)

subsection \<open>Evaluation only adds bindings\<close>

lemma extends_refl: "extends t t"
  by (induction t) (auto split: option.splits)

lemma take_take_prefix:
  assumes "take (length d) d' = d" "take (length d') d'' = d'"
  shows "take (length d) d'' = d"
proof -
  have "length (take (length d) d') = length d" using assms(1) by simp
  then have l: "length d \<le> length d'" by simp
  have "take (length d) d'' = take (length d) (take (length d') d'')" using l by (simp add: min_def)
  then show ?thesis using assms by simp
qed

lemma extends_trans: "extends a b \<Longrightarrow> extends b c \<Longrightarrow> extends a c"
proof (induction a arbitrary: b c)
  case (SymbolTable p d)
  obtain p' d' where b: "b = SymbolTable p' d'" by (cases b)
  obtain p'' d'' where c: "c = SymbolTable p'' d''" by (cases c)
  show ?case
    using SymbolTable.prems SymbolTable.IH
    by (auto simp: b c take_take_prefix split: option.splits)
qed

lemma dict_set_append: "k \<notin> fst ` set d \<Longrightarrow> dict_set d k v = d @ [(k, v)]"
  by (induction d) auto

lemma setitem_extends: "setitem t s v = Inr t' \<Longrightarrow> extends t t'"
  by (cases t) (auto simp: setitem_def dict_set_append extends_refl split: if_splits option.splits)

lemma only_adds_retE: "only_adds (retE x)"
  by (simp add: only_adds_def retE_def extends_refl)

lemma only_adds_raiseE: "only_adds (raiseE e)"
  by (simp add: only_adds_def raiseE_def extends_refl)

lemma only_adds_noneE: "only_adds noneE"
  by (simp add: only_adds_def noneE_def)

lemma only_adds_lift: "only_adds (lift r)"
  by (auto simp: lift_def only_adds_retE only_adds_raiseE only_adds_noneE split: option.splits sum.splits)

lemma only_adds_bindE:
  assumes "only_adds f" and "\<And>x st st'. f st = Some (Inr x, st') \<Longrightarrow> only_adds (g x)"
  shows "only_adds (bindE f g)"
  unfolding only_adds_def
proof (intro allI impI)
  fix st r st' assume h: "bindE f g st = Some (r, st')"
  show "extends (scope st) (scope st')"
  proof (cases "f st")
    case None then show ?thesis using h by (simp add: bindE_def)
  next
    case (Some a)
    obtain r1 st1 where a: "a = (r1, st1)" by (cases a)
    have e1: "extends (scope st) (scope st1)" using assms(1) Some a by (auto simp: only_adds_def)
    show ?thesis
    proof (cases r1)
      case (Inl e) then show ?thesis using h Some a e1 by (simp add: bindE_def)
    next
      case (Inr x)
      have "g x st1 = Some (r, st')" using h Some a Inr by (simp add: bindE_def)
      moreover have "only_adds (g x)" using assms(2) Some a Inr by simp
      ultimately have "extends (scope st1) (scope st')" by (auto simp: only_adds_def)
      with e1 show ?thesis by (rule extends_trans)
    qed
  qed
qed

lemma only_adds_bindE': "only_adds f \<Longrightarrow> (\<And>x. only_adds (g x)) \<Longrightarrow> only_adds (bindE f g)"
  by (rule only_adds_bindE)

lemma only_adds_try_except:
  assumes "only_adds f" and "\<And>e. only_adds (h e)"
  shows "only_adds (try_except f h)"
  unfolding only_adds_def
proof (intro allI impI)
  fix st r st' assume a: "try_except f h st = Some (r, st')"
  show "extends (scope st) (scope st')"
  proof (cases "f st")
    case None then show ?thesis using a by (simp add: try_except_def)
  next
    case (Some p)
    obtain r1 st1 where p: "p = (r1, st1)" by (cases p)
    have e1: "extends (scope st) (scope st1)" using assms(1) Some p by (auto simp: only_adds_def)
    show ?thesis
    proof (cases r1)
      case (Inr x) then show ?thesis using a Some p e1 by (simp add: try_except_def)
    next
      case (Inl e)
      have "h e st1 = Some (r, st')" using a Some p Inl by (simp add: try_except_def)
      then have "extends (scope st1) (scope st')" using assms(2) [of e] by (auto simp: only_adds_def)
      with e1 show ?thesis by (rule extends_trans)
    qed
  qed
qed

lemma only_adds_reraise: "only_adds (reraise ln e)"
  by (simp add: reraise_def only_adds_raiseE)

lemma only_adds_lookup: "only_adds (lookup s)"
  by (simp add: only_adds_def lookup_def extends_refl)

lemma only_adds_bind_symbol: "only_adds (bind_symbol s v)"
  by (auto simp: only_adds_def bind_symbol_def extends_refl setitem_extends split: sum.splits)

lemma only_adds_placeholder_value: "only_adds (placeholder_value m n)"
  by (auto simp: only_adds_def placeholder_value_def extends_refl split: option.splits if_splits)

lemma only_adds_matching_i: "only_adds (matching_i m)"
  by (auto simp: only_adds_def matching_i_def extends_refl split: option.splits)

lemma only_adds_set_cursor: "only_adds (set_cursor m i row)"
  by (auto simp: only_adds_def set_cursor_def extends_refl)

lemma in_child_result:
  assumes "only_adds f" and "in_child d f st = Some (r, st')"
  shows "extends (scope st) (scope st') \<and>
         (\<forall>x out. r = Inr (x, out) \<longrightarrow> distinct (map fst d) \<longrightarrow> distinct (map fst out))"
proof -
  from assms(2) obtain r1 st1 p where
    f: "f (st\<lparr>scope := SymbolTable (Some (scope st)) d\<rparr>) = Some (r1, st1)" and
    p: "parent (scope st1) = Some p" and
    r: "r = (case r1 of Inl e \<Rightarrow> Inl e | Inr x \<Rightarrow> Inr (x, symbols (scope st1)))" and
    s: "st' = st1\<lparr>scope := p\<rparr>"
    by (auto simp: in_child_def split: option.splits prod.splits)
  from assms(1) f have "extends (scope (st\<lparr>scope := SymbolTable (Some (scope st)) d\<rparr>)) (scope st1)"
    unfolding only_adds_def by blast
  then have e: "extends (SymbolTable (Some (scope st)) d) (scope st1)" by simp
  obtain p1 d1 where t: "scope st1 = SymbolTable p1 d1" by (cases "scope st1")
  from e t p have "extends (scope st) p" and "distinct (map fst d) \<longrightarrow> distinct (map fst d1)"
    by (auto split: option.splits)
  then show ?thesis using r s t by (auto split: sum.splits)
qed

lemma only_adds_in_child: "only_adds f \<Longrightarrow> only_adds (in_child d f)"
  using in_child_result unfolding only_adds_def by blast

lemma only_adds_run_each: "(\<And>x. only_adds (ev x)) \<Longrightarrow> only_adds (run_each ev xs)"
  by (induction xs) (auto intro!: only_adds_retE only_adds_bindE')

lemma only_adds_run_list: "(\<And>x. only_adds (ev x)) \<Longrightarrow> only_adds (run_list ev xs)"
  by (induction xs) (auto intro!: only_adds_retE only_adds_bindE')

lemma only_adds_run_rows: "(\<And>x. only_adds (ev x)) \<Longrightarrow> only_adds (run_rows ev m body i rows)"
  by (induction rows arbitrary: i) (auto intro!: only_adds_retE only_adds_bindE' only_adds_set_cursor)

lemma only_adds_bind_parameters: "(\<And>x. only_adds (ev x)) \<Longrightarrow> only_adds (bind_parameters ev zs d)"
  by (induction zs arbitrary: d) (auto intro!: only_adds_retE only_adds_bindE')

lemma only_adds_union_from: "(\<And>x. only_adds (ev x)) \<Longrightarrow> only_adds (union_from ev acc xs)"
  by (induction xs arbitrary: acc) (auto intro!: only_adds_retE only_adds_bindE' only_adds_lift)

lemma only_adds_argument: "(\<And>x. only_adds (ev x)) \<Longrightarrow> only_adds (argument ev args i)"
  by (simp add: argument_def only_adds_raiseE)

lemma only_adds_unary: "(\<And>x. only_adds (ev x)) \<Longrightarrow> only_adds (unary ev args f)"
  by (auto simp: unary_def intro!: only_adds_bindE' only_adds_argument only_adds_lift)

lemma only_adds_binary: "(\<And>x. only_adds (ev x)) \<Longrightarrow> only_adds (binary ev args f)"
  by (auto simp: binary_def intro!: only_adds_bindE' only_adds_argument only_adds_lift)

lemma only_adds_call_builtin: "(\<And>x. only_adds (ev x)) \<Longrightarrow> only_adds (call_builtin ev b args)"
  by (cases b)
     (auto intro!: only_adds_unary only_adds_binary only_adds_union_from only_adds_bindE'
        only_adds_argument only_adds_lift only_adds_retE)

lemma only_adds_call_function:
  "(\<And>x. only_adds (ev x)) \<Longrightarrow> only_adds (call_function ev ps body ln args)"
  by (auto simp: call_function_def
        intro!: only_adds_raiseE only_adds_bindE' only_adds_bind_parameters only_adds_in_child only_adds_retE)

lemma only_adds_call_value: "(\<And>x. only_adds (ev x)) \<Longrightarrow> only_adds (call_value ev f args)"
  by (cases f) (auto simp: call_value_def intro!: only_adds_raiseE only_adds_call_function only_adds_call_builtin)

lemma only_adds_matching_run: "(\<And>x. only_adds (ev x)) \<Longrightarrow> only_adds (matching_run ev mt body)"
  by (auto simp: matching_run_def intro!: only_adds_bindE' only_adds_run_list only_adds_lift only_adds_run_rows)

lemma only_adds_run_optional: "(\<And>x. only_adds (ev x)) \<Longrightarrow> only_adds (run_optional ev x)"
  by (cases x) (auto simp: run_optional_def only_adds_retE)

lemma only_adds_run_step:
  assumes "\<And>x. only_adds (ev x)"
  shows "only_adds (run_step ev x)"
proof (cases x)
  case (Assignment s opr e ln)
  then show ?thesis
    using assms
    by (cases e) (auto intro!: only_adds_bindE' only_adds_bind_symbol only_adds_placeholder_value)
next
  case (Pattern xs mt c ln)
  then show ?thesis
    using assms
    by (cases mt)
       (auto intro!: only_adds_bindE' only_adds_retE only_adds_in_child only_adds_run_each only_adds_matching_i)
qed (auto intro!: only_adds_bindE' only_adds_retE only_adds_raiseE only_adds_in_child
       only_adds_run_each only_adds_matching_run only_adds_try_except only_adds_call_value
       only_adds_reraise only_adds_lift only_adds_run_optional only_adds_lookup
     simp: assms)

lemma only_adds_run: "only_adds (run k x)"
  by (induction k arbitrary: x) (auto simp: only_adds_noneE intro: only_adds_run_step)

subsection \<open>Modules and patterns\<close>

lemma extends_symbols: "extends t t' \<Longrightarrow> \<exists>r. symbols t' = symbols t @ r"
proof -
  assume e: "extends t t'"
  obtain p d where t: "t = SymbolTable p d" by (cases t)
  obtain p' d' where t': "t' = SymbolTable p' d'" by (cases t')
  from e t t' have "take (length d) d' = d" by simp
  then have "d' = d @ drop (length d) d'" by (metis append_take_drop_id)
  then show ?thesis using t t' by auto
qed

lemma extends_keys: "extends t t' \<Longrightarrow> s \<in> fst ` set (symbols t) \<Longrightarrow> s \<in> fst ` set (symbols t')"
  using extends_symbols [of t t'] by auto

lemma extends_map_of:
  "extends t t' \<Longrightarrow> map_of (symbols t) s = Some v \<Longrightarrow> map_of (symbols t') s = Some v"
  using extends_symbols [of t t'] by (auto simp: map_add_Some_iff)

lemma bindE_assoc: "bindE (bindE f g) h = bindE f (\<lambda>x. bindE (g x) h)"
  by (auto simp: bindE_def fun_eq_iff split: option.splits sum.splits prod.splits)

lemma bindE_retE: "bindE (retE x) g = g x"
  by (simp add: bindE_def retE_def)

lemma run_each_append:
  "run_each ev (xs @ ys) = bindE (run_each ev xs) (\<lambda>_. run_each ev ys)"
  by (induction xs) (simp_all add: bindE_assoc bindE_retE)

lemma run_each_Inr_append:
  "run_each ev (xs @ ys) st = Some (Inr u, st') \<longleftrightarrow>
     (\<exists>st1. run_each ev xs st = Some (Inr (), st1) \<and> run_each ev ys st1 = Some (Inr u, st'))"
  by (auto simp: run_each_append bindE_def split: option.splits sum.splits prod.splits)

lemma run_each_Inr_Cons:
  "run_each ev (x # ys) st = Some (Inr u, st') \<longleftrightarrow>
     (\<exists>v st1. ev x st = Some (Inr v, st1) \<and> run_each ev ys st1 = Some (Inr u, st'))"
  by (auto simp: bindE_def split: option.splits sum.splits prod.splits)

text \<open>
  Claim C8.  When the statements \<open>pre\<close> of a module have run and the next statement \<open>x\<close>
  fails with \<open>e\<close>, the module fails with the same \<open>e\<close>, and the state is the one that
  the failing statement left: no later statement runs and nothing is undone.  The table
  after \<open>pre\<close> extends the initial one and the final table extends the table after \<open>pre\<close>,
  so every name that an earlier statement bound is still bound to the same value.
\<close>

theorem module_keeps_earlier_bindings:
  assumes "run_each (run k) pre st = Some (Inr (), st1)" and "run k x st1 = Some (Inl e, st2)"
  shows "run (Suc k) (Module (pre @ x # post) ln) st = Some (Inl e, st2) \<and>
         extends (scope st) (scope st1) \<and> extends (scope st1) (scope st2) \<and>
         (\<forall>s v. map_of (symbols (scope st1)) s = Some v \<longrightarrow> map_of (symbols (scope st2)) s = Some v)"
proof -
  have 1: "run (Suc k) (Module (pre @ x # post) ln) st = Some (Inl e, st2)"
    using assms by (simp add: run_each_append bindE_def)
  have "only_adds (run_each (run k) pre)" by (rule only_adds_run_each) (rule only_adds_run)
  with assms(1) have 2: "extends (scope st) (scope st1)" unfolding only_adds_def by blast
  from assms(2) only_adds_run [of k x] have 3: "extends (scope st1) (scope st2)"
    unfolding only_adds_def by blast
  from 1 2 3 extends_map_of [OF 3] show ?thesis by blast
qed

theorem module_keeps_earlier_bindings_witness:
  "run 3 (Module [Assignment ''y'' ''='' (Literal (CInt 1) (Some 1)) (Some 1),
                  Assignment ''z'' ''='' (Symbol ''nope'' (Some 2)) (Some 2),
                  Assignment ''w'' ''='' (Literal (CInt 3) (Some 3)) (Some 3)] (Some 1))
        (start_state (SymbolTable None []))
     = Some (Inl (wrap (Some 2) (Error KeyError (repr_str ''nope'') None)),
             start_state (SymbolTable None [(''y'', VInt 1)]))"
proof -
  let ?s = "start_state (SymbolTable None [])"
  let ?s1 = "start_state (SymbolTable None [(''y'', VInt 1)])"
  have a: "run_each (run 2) [Assignment ''y'' ''='' (Literal (CInt 1) (Some 1)) (Some 1)] ?s = Some (Inr (), ?s1)"
    by (simp add: numeral_eq_Suc bindE_def retE_def bind_symbol_def setitem_def start_state_def)
  have b: "run 2 (Assignment ''z'' ''='' (Symbol ''nope'' (Some 2)) (Some 2)) ?s1
             = Some (Inl (wrap (Some 2) (Error KeyError (repr_str ''nope'') None)), ?s1)"
    by (simp add: numeral_eq_Suc bindE_def try_except_def lookup_def reraise_def raiseE_def start_state_def)
  from module_keeps_earlier_bindings [OF a b, of "[Assignment ''w'' ''='' (Literal (CInt 3) (Some 3)) (Some 3)]" "Some 1"]
  show ?thesis by (simp add: numeral_eq_Suc)
qed


lemma assignment_unfold:
  "run (Suc k) (Assignment s opr e ln) =
     bindE (case e of Placeholder m n \<Rightarrow> placeholder_value m n | _ \<Rightarrow> run k e) (bind_symbol s)"
  by (cases e) auto

lemma only_adds_assigned_value:
  "only_adds (case e of Placeholder m n \<Rightarrow> placeholder_value m n | _ \<Rightarrow> run k e)"
  by (cases e) (auto intro: only_adds_run only_adds_placeholder_value)

lemma bind_symbol_Inr:
  "bind_symbol s v st = Some (Inr u, st') \<Longrightarrow>
     s \<notin> fst ` set (symbols (scope st)) \<and> s \<in> fst ` set (symbols (scope st'))"
  by (auto simp: bind_symbol_def setitem_def dict_set_keys split: sum.splits if_splits)

lemma assignment_binds:
  fixes st :: "'x state_scheme"
  assumes "run k (Assignment s opr e ln) st = Some (Inr v, st')"
  shows "s \<notin> fst ` set (symbols (scope st)) \<and> s \<in> fst ` set (symbols (scope st'))"
proof (cases k)
  case 0
  then show ?thesis using assms by (simp add: noneE_def)
next
  case (Suc j)
  from assms Suc obtain x and st1 :: "'x state_scheme" where
    1: "(case e of Placeholder m n \<Rightarrow> placeholder_value m n | _ \<Rightarrow> run j e) st = Some (Inr x, st1)" and
    2: "bind_symbol s x st1 = Some (Inr v, st')"
    by (auto simp del: run.simps simp: assignment_unfold bindE_def split: option.splits sum.splits prod.splits)
  from only_adds_assigned_value [where e = e and k = j] 1 have "extends (scope st) (scope st1)"
    unfolding only_adds_def by blast
  with bind_symbol_Inr [OF 2] extends_keys show ?thesis by blast
qed

lemma run_each_keys:
  fixes st :: "'x state_scheme"
  assumes "run_each (run k) xs st = Some (r, st')" and "s \<in> fst ` set (symbols (scope st))"
  shows "s \<in> fst ` set (symbols (scope st'))"
proof -
  have "only_adds (run_each (run k :: node \<Rightarrow> (val, 'x state_scheme) eval) xs)"
    by (rule only_adds_run_each) (rule only_adds_run)
  with assms(1) have "extends (scope st) (scope st')" unfolding only_adds_def by blast
  with assms(2) show ?thesis by (rule extends_keys [rotated])
qed

lemma no_second_assignment:
  fixes st :: "'x state_scheme"
  shows "run_each (run k) (pre @ Assignment s o1 e1 l1 # btw @ Assignment s o2 e2 l2 # post) st
           \<noteq> Some (Inr u, st')"
proof
  assume "run_each (run k) (pre @ Assignment s o1 e1 l1 # btw @ Assignment s o2 e2 l2 # post) st = Some (Inr u, st')"
  then obtain sa sb sc sd :: "'x state_scheme" and v1 v2 where
    1: "run k (Assignment s o1 e1 l1) sa = Some (Inr v1, sb)" and
    2: "run_each (run k) btw sb = Some (Inr (), sc)" and
    3: "run k (Assignment s o2 e2 l2) sc = Some (Inr v2, sd)"
    by (auto simp del: run_each.simps simp: run_each_Inr_append run_each_Inr_Cons)
  from assignment_binds [OF 1] have "s \<in> fst ` set (symbols (scope sb))" by simp
  from run_each_keys [OF 2 this] have "s \<in> fst ` set (symbols (scope sc))" .
  with assignment_binds [OF 3] show False by simp
qed

text \<open>
  Claim C10.  The record under construction is the dictionary of the table in which the
  assignments of a pattern run, so its fields are bound once: the fields of a record that a
  pattern returns have pairwise distinct names; a pattern with two assignments to the same
  name never returns a record but fails; and an assignment to a name that the current table
  already binds fails, with the redefinition error of \<^verbatim>\<open>SymbolTable.__setitem__\<close> when
  the value to be bound was obtained.
\<close>

theorem record_fields_are_assigned_once:
  fixes st :: "'x state_scheme"
  shows
  "(run (Suc k) (Pattern xs mt c ln) st = Some (Inr v, st') \<longrightarrow>
      (\<exists>i out. v = VObj i out \<and> distinct (map fst out))) \<and>
   (run (Suc k) (Pattern (pre @ Assignment s o1 e1 l1 # btw @ Assignment s o2 e2 l2 # post) mt c ln) st
        = Some (r, st') \<longrightarrow> (\<exists>e. r = Inl e)) \<and>
   (s \<in> fst ` set (symbols (scope st)) \<and> run (Suc k) (Assignment s opr e ln) st = Some (r, st') \<longrightarrow>
      (\<exists>err. r = Inl err) \<and>
      ((\<exists>x. (case e of Placeholder m n \<Rightarrow> placeholder_value m n | _ \<Rightarrow> run k e) st = Some (Inr x, st')) \<longrightarrow>
         r = Inl (Error TypeError (''symbol '' @ repr_str s @ '' has multiple definitions at this scope'') None)))"
proof (intro conjI impI)
  assume a: "run (Suc k) (Pattern xs mt c ln) st = Some (Inr v, st')"
  then obtain n u out and st0 :: "'x state_scheme" where
    i: "in_child [] (run_each (run k) xs) st0 = Some (Inr (u, out), st')" and
    v: "v = VObj (ID c (''Line'' @ str_line ln) n) out"
    by (auto simp: bindE_def retE_def split: option.splits sum.splits prod.splits)
  have "only_adds (run_each (run k :: node \<Rightarrow> (val, 'x state_scheme) eval) xs)"
    by (rule only_adds_run_each) (rule only_adds_run)
  from in_child_result [OF this i] have "distinct (map fst out)" by simp
  with v show "\<exists>i out. v = VObj i out \<and> distinct (map fst out)" by blast
next
  assume a: "run (Suc k) (Pattern (pre @ Assignment s o1 e1 l1 # btw @ Assignment s o2 e2 l2 # post) mt c ln) st
        = Some (r, st')"
  show "\<exists>e. r = Inl e"
  proof (cases r)
    case (Inl e) then show ?thesis by blast
  next
    case (Inr v)
    with a obtain u and st0 s1 :: "'x state_scheme" where
      "run_each (run k) (pre @ Assignment s o1 e1 l1 # btw @ Assignment s o2 e2 l2 # post) st0 = Some (Inr u, s1)"
      by (auto simp: bindE_def retE_def in_child_def split: option.splits sum.splits prod.splits)
    with no_second_assignment show ?thesis by blast
  qed
next
  assume a: "s \<in> fst ` set (symbols (scope st)) \<and> run (Suc k) (Assignment s opr e ln) st = Some (r, st')"
  show "\<exists>err. r = Inl err"
  proof (cases r)
    case (Inl e) then show ?thesis by blast
  next
    case (Inr v)
    with a assignment_binds [of "Suc k" s opr e ln st v st'] show ?thesis by blast
  qed
next
  assume a: "s \<in> fst ` set (symbols (scope st)) \<and> run (Suc k) (Assignment s opr e ln) st = Some (r, st')"
    and b: "\<exists>x. (case e of Placeholder m n \<Rightarrow> placeholder_value m n | _ \<Rightarrow> run k e) st = Some (Inr x, st')"
  from b obtain x where
    x: "(case e of Placeholder m n \<Rightarrow> placeholder_value m n | _ \<Rightarrow> run k e) st = Some (Inr x, st')"
    by blast
  from only_adds_assigned_value [where e = e and k = k] x have "extends (scope st) (scope st')"
    unfolding only_adds_def by blast
  with a have k: "s \<in> fst ` set (symbols (scope st'))" by (auto intro: extends_keys)
  from a x k
  show "r = Inl (Error TypeError (''symbol '' @ repr_str s @ '' has multiple definitions at this scope'') None)"
    by (auto simp del: run.simps simp: assignment_unfold bindE_def bind_symbol_def setitem_def)
qed

theorem record_fields_are_assigned_once_witness:
  "run 3 (Pattern [Assignment ''a'' ''='' (Literal (CInt 1) (Some 1)) (Some 1),
                   Assignment ''b'' ''='' (Literal (CInt 2) (Some 2)) (Some 2)] None 0 None)
         (start_state (SymbolTable None []))
     = Some (Inr (VObj (ID 0 ''LineNone'' None) [(''a'', VInt 1), (''b'', VInt 2)]),
             start_state (SymbolTable None []))
   \<and> distinct (map fst [(''a'', VInt 1), (''b'', VInt 2)])
   \<and> run 3 (Pattern [Assignment ''a'' ''='' (Literal (CInt 1) (Some 1)) (Some 1),
                     Assignment ''a'' ''='' (Literal (CInt 1) (Some 2)) (Some 2)] None 0 None)
         (start_state (SymbolTable None []))
     = Some (Inl (Error TypeError (''symbol '' @ repr_str ''a'' @ '' has multiple definitions at this scope'') None),
             start_state (SymbolTable None []))"
proof -
  let ?s = "start_state (SymbolTable None [])"
  have 1: "run (Suc 2) (Pattern [Assignment ''a'' ''='' (Literal (CInt 1) (Some 1)) (Some 1),
                   Assignment ''b'' ''='' (Literal (CInt 2) (Some 2)) (Some 2)] None 0 None) ?s
     = Some (Inr (VObj (ID 0 ''LineNone'' None) [(''a'', VInt 1), (''b'', VInt 2)]), ?s)"
    by (simp add: numeral_eq_Suc bindE_def retE_def in_child_def bind_symbol_def setitem_def
          start_state_def str_line_def)
  have 2: "run (Suc 2) (Pattern ([] @ Assignment ''a'' ''='' (Literal (CInt 1) (Some 1)) (Some 1) # [] @
                   Assignment ''a'' ''='' (Literal (CInt 1) (Some 2)) (Some 2) # []) None 0 None) ?s
     = Some (Inl (Error TypeError (''symbol '' @ repr_str ''a'' @ '' has multiple definitions at this scope'') None), ?s)"
    by (simp add: numeral_eq_Suc bindE_def retE_def in_child_def bind_symbol_def setitem_def
          start_state_def)
  from record_fields_are_assigned_once [where k = 2 and st = ?s and st' = ?s and mt = None and c = 0 and ln = None
      and xs = "[Assignment ''a'' ''='' (Literal (CInt 1) (Some 1)) (Some 1),
                   Assignment ''b'' ''='' (Literal (CInt 2) (Some 2)) (Some 2)]"
      and v = "VObj (ID 0 ''LineNone'' None) [(''a'', VInt 1), (''b'', VInt 2)]"
      and pre = "[]" and btw = "[]" and post = "[]" and s = "''a''" and ?o1.0 = "''=''" and ?o2.0 = "''=''"
      and ?e1.0 = "Literal (CInt 1) (Some 1)" and ?e2.0 = "Literal (CInt 1) (Some 2)" and ?l1.0 = "Some 1" and ?l2.0 = "Some 2"
      and r = "Inl (Error TypeError (''symbol '' @ repr_str ''a'' @ '' has multiple definitions at this scope'') None)"
      and opr = "''=''" and e = "Literal (CInt 1) (Some 2)"] 1 2
  show ?thesis by (simp add: numeral_eq_Suc)
qed

subsection \<open>The enumeration of a matching\<close>

lemma product_snoc:
  "product (ps @ [p]) = concat (map (\<lambda>x. map (\<lambda>y. x @ [y]) p) (product ps))"
  by (simp add: product_def)

lemma product_Nil: "product [] = [[]]"
  by (simp add: product_def)

lemma length_concat_blocks:
  "length (concat (map (\<lambda>x. map (g x) p) xs)) = length xs * length p"
  by (induction xs) auto

lemma nth_concat_blocks:
  "i < length xs * length p \<Longrightarrow>
   concat (map (\<lambda>x. map (g x) p) xs) ! i = g (xs ! (i div length p)) (p ! (i mod length p))"
proof (induction xs arbitrary: i)
  case Nil
  then show ?case by simp
next
  case (Cons x xs)
  let ?n = "length p"
  show ?case
  proof (cases "i < ?n")
    case True
    then show ?thesis by (simp add: nth_append)
  next
    case False
    then have ge: "?n \<le> i" by simp
    from Cons.prems have n0: "0 < ?n" by (cases "?n") auto
    from Cons.prems ge have lt: "i - ?n < length xs * ?n" by simp
    have d: "i div ?n = Suc ((i - ?n) div ?n)" using ge n0 by (rule le_div_geq [rotated])
    have m: "i mod ?n = (i - ?n) mod ?n" using ge by (rule le_mod_geq)
    from False Cons.IH [OF lt] show ?thesis by (simp add: nth_append d m)
  qed
qed

lemma length_product: "length (product ps) = prod_list (map length ps)"
  by (induction ps rule: rev_induct) (simp_all add: product_Nil product_snoc length_concat_blocks)

lemma product_rows:
  "i < length (product ps) \<Longrightarrow>
   length (product ps ! i) = length ps \<and>
   (\<forall>j<length ps. product ps ! i ! j =
      ps ! j ! ((i div prod_list (map length (drop (Suc j) ps))) mod length (ps ! j)))"
proof (induction ps arbitrary: i rule: rev_induct)
  case Nil
  then show ?case by (simp add: product_Nil)
next
  case (snoc p ps)
  let ?n = "length p"
  from snoc.prems have i: "i < length (product ps) * ?n"
    by (simp add: product_snoc length_concat_blocks)
  then have n0: "0 < ?n" by (cases "?n") auto
  from i have q: "i div ?n < length (product ps)"
    by (simp add: less_mult_imp_div_less)
  have row: "product (ps @ [p]) ! i = product ps ! (i div ?n) @ [p ! (i mod ?n)]"
    using nth_concat_blocks [OF i, of "\<lambda>x y. x @ [y]"] by (simp add: product_snoc)
  from snoc.IH [OF q] have len: "length (product ps ! (i div ?n)) = length ps"
    and ih: "\<And>j. j < length ps \<Longrightarrow> product ps ! (i div ?n) ! j =
      ps ! j ! (((i div ?n) div prod_list (map length (drop (Suc j) ps))) mod length (ps ! j))"
    by simp_all
  show ?case
  proof (intro conjI allI impI)
    show "length (product (ps @ [p]) ! i) = length (ps @ [p])" by (simp add: row len)
  next
    fix j assume j: "j < length (ps @ [p])"
    show "product (ps @ [p]) ! i ! j =
      (ps @ [p]) ! j ! ((i div prod_list (map length (drop (Suc j) (ps @ [p])))) mod length ((ps @ [p]) ! j))"
    proof (cases "j < length ps")
      case True
      have "(i div ?n) div prod_list (map length (drop (Suc j) ps))
              = i div (prod_list (map length (drop (Suc j) ps)) * ?n)"
        by (simp add: div_mult2_eq mult.commute)
      with True ih [OF True] show ?thesis by (simp add: row len nth_append)
    next
      case False
      with j have "j = length ps" by simp
      then show ?thesis by (simp add: row len nth_append)
    qed
  qed
qed

lemma run_rows_trace:
  fixes st :: "'x state_scheme"
  assumes "run_rows ev m body i rows st = Some (Inr rs, st')"
  shows "length rs = length rows \<and>
         (\<exists>ss. length ss = Suc (length rows) \<and> ss ! 0 = st \<and> ss ! length rows = st' \<and>
            (\<forall>k<length rows.
               ev body ((ss ! k)\<lparr>cursor := (cursor (ss ! k))(m := Some (i + k, rows ! k))\<rparr>)
                 = Some (Inr (rs ! k), ss ! Suc k)))"
  using assms
proof (induction rows arbitrary: i st rs)
  case Nil
  then have "rs = []" "st' = st" by (simp_all add: retE_def)
  then show ?case by (auto intro: exI [of _ "[st]"])
next
  case (Cons row rows)
  from Cons.prems obtain r rs' and s1 :: "'x state_scheme" where
    b: "ev body (st\<lparr>cursor := (cursor st)(m := Some (i, row))\<rparr>) = Some (Inr r, s1)" and
    t: "run_rows ev m body (Suc i) rows s1 = Some (Inr rs', st')" and
    rs: "rs = r # rs'"
    by (auto simp: bindE_def retE_def set_cursor_def split: option.splits sum.splits prod.splits)
  from Cons.IH [OF t] obtain ss where
    l: "length rs' = length rows" and
    ss: "length ss = Suc (length rows)" "ss ! 0 = s1" "ss ! length rows = st'" and
    st: "\<And>k. k < length rows \<Longrightarrow>
           ev body ((ss ! k)\<lparr>cursor := (cursor (ss ! k))(m := Some (Suc i + k, rows ! k))\<rparr>)
             = Some (Inr (rs' ! k), ss ! Suc k)"
    by blast
  have "\<forall>k<length (row # rows).
          ev body (((st # ss) ! k)\<lparr>cursor := (cursor ((st # ss) ! k))(m := Some (i + k, (row # rows) ! k))\<rparr>)
            = Some (Inr (rs ! k), (st # ss) ! Suc k)"
  proof (intro allI impI)
    fix k assume k: "k < length (row # rows)"
    show "ev body (((st # ss) ! k)\<lparr>cursor := (cursor ((st # ss) ! k))(m := Some (i + k, (row # rows) ! k))\<rparr>)
            = Some (Inr (rs ! k), (st # ss) ! Suc k)"
    proof (cases k)
      case 0
      then show ?thesis using b ss(2) rs by simp
    next
      case (Suc k')
      with k have "k' < length rows" by simp
      from st [OF this] show ?thesis using Suc rs by simp
    qed
  qed
  moreover have "length (st # ss) = Suc (length (row # rows))" using ss(1) by simp
  moreover have "(st # ss) ! 0 = st" by simp
  moreover have "(st # ss) ! length (row # rows) = st'" using ss(3) by simp
  moreover have "length rs = length (row # rows)" using l rs by simp
  ultimately show ?case by blast
qed

text \<open>
  Claim C2.  Let the candidate expressions of a matching evaluate to values whose elements
  are the lists \<open>ps\<close>, and let \<^verbatim>\<open>Matching.run\<close> return the results \<open>rs\<close>.  Then \<open>rs\<close> has
  as many elements as the product of the lengths of \<open>ps\<close>, none when one of \<open>ps\<close> is empty.
  The results are those of the body, in order: there are states \<open>ss\<close>, from the state after
  the candidates to the final state, such that result \<open>i\<close> is what the body gives in state
  \<open>i\<close> with the index of the matching set to \<open>i\<close> and its row to the \<open>i\<close>-th row of the
  product, and leaves state \<open>i + 1\<close>.  Row \<open>i\<close> has one element of each candidate, and the
  element of slot \<open>j\<close> is the one at position \<open>i div (n\<^sub>j\<^sub>+\<^sub>1 \<cdots> n\<^sub>k) mod n\<^sub>j\<close>: the index of
  the last slot varies fastest.
\<close>

theorem matching_enumerates_the_product:
  fixes st :: "'x state_scheme"
  assumes "run_list ev (collections mt) st = Some (Inr vals, st0)"
      and "pools vals = Inr ps"
      and "matching_run ev mt body st = Some (Inr rs, st')"
  shows "length rs = prod_list (map length ps) \<and>
         (\<exists>ss. length ss = Suc (length rs) \<and> ss ! 0 = st0 \<and> ss ! length rs = st' \<and>
            (\<forall>i<length rs.
               ev body ((ss ! i)\<lparr>cursor := (cursor (ss ! i))(mid mt := Some (i, product ps ! i))\<rparr>)
                 = Some (Inr (rs ! i), ss ! Suc i))) \<and>
         (\<forall>i<length rs. length (product ps ! i) = length ps \<and>
            (\<forall>j<length ps. product ps ! i ! j =
               ps ! j ! ((i div prod_list (map length (drop (Suc j) ps))) mod length (ps ! j)))) \<and>
         ([] \<in> set ps \<longrightarrow> rs = [])"
proof -
  from assms have r: "run_rows ev (mid mt) body 0 (product ps) st0 = Some (Inr rs, st')"
    by (simp add: matching_run_def bindE_def lift_def retE_def)
  from run_rows_trace [OF r] obtain ss where
    l: "length rs = length (product ps)" and
    s1: "length ss = Suc (length (product ps))" and s2: "ss ! 0 = st0" and
    s3: "ss ! length (product ps) = st'" and
    s4: "\<And>k. k < length (product ps) \<Longrightarrow>
               ev body ((ss ! k)\<lparr>cursor := (cursor (ss ! k))(mid mt := Some (0 + k, product ps ! k))\<rparr>)
                 = Some (Inr (rs ! k), ss ! Suc k)"
    by blast
  have 1: "length rs = prod_list (map length ps)" using l by (simp add: length_product)
  have 2: "\<exists>ss. length ss = Suc (length rs) \<and> ss ! 0 = st0 \<and> ss ! length rs = st' \<and>
            (\<forall>i<length rs.
               ev body ((ss ! i)\<lparr>cursor := (cursor (ss ! i))(mid mt := Some (i, product ps ! i))\<rparr>)
                 = Some (Inr (rs ! i), ss ! Suc i))"
    using s1 s2 s3 s4 unfolding l [symmetric] by (intro exI [of _ ss]) simp
  have 3: "\<forall>i<length rs. length (product ps ! i) = length ps \<and>
            (\<forall>j<length ps. product ps ! i ! j =
               ps ! j ! ((i div prod_list (map length (drop (Suc j) ps))) mod length (ps ! j)))"
  proof (intro allI impI)
    fix i assume "i < length rs"
    then have "i < length (product ps)" using l by simp
    from product_rows [OF this]
    show "length (product ps ! i) = length ps \<and>
            (\<forall>j<length ps. product ps ! i ! j =
               ps ! j ! ((i div prod_list (map length (drop (Suc j) ps))) mod length (ps ! j)))" .
  qed
  have 4: "[] \<in> set ps \<longrightarrow> rs = []"
  proof
    assume "[] \<in> set ps"
    then have "0 \<in> set (map length ps)" by force
    then have "prod_list (map length ps) = 0" by (simp add: prod_list_zero_iff)
    with 1 show "rs = []" by simp
  qed
  from 1 2 3 4 show ?thesis by blast
qed

lemma example_candidates:
  fixes st :: "'x state_scheme"
  assumes "scope st = example_scope"
  shows "run_list (run 2) (collections example_matching) st
           = Some (Inr [VList [VInt 1, VInt 2, VInt 3], VList [VStr ''A'', VStr ''B'']], st)"
  using assms
  by (simp add: numeral_eq_Suc bindE_def retE_def try_except_def lookup_def
        example_scope_def example_matching_def)

lemma example_product:
  "product [[VInt 1, VInt 2, VInt 3], [VStr ''A'', VStr ''B'']]
     = [[VInt 1, VStr ''A''], [VInt 1, VStr ''B''], [VInt 2, VStr ''A''],
        [VInt 2, VStr ''B''], [VInt 3, VStr ''A''], [VInt 3, VStr ''B'']]"
  by (simp add: product_def)

lemma example_run:
  "matching_run (run 2) example_matching example_pattern (start_state example_scope)
     = Some (Inr example_records,
             (start_state example_scope)
               \<lparr>cursor := (cursor (start_state example_scope))(0 := Some (5, [VInt 3, VStr ''B'']))\<rparr>)"
  unfolding matching_run_def
  by (simp add: example_product numeral_eq_Suc bindE_def retE_def lift_def in_child_def
        set_cursor_def matching_i_def placeholder_value_def bind_symbol_def setitem_def
        try_except_def lookup_def start_state_def
        example_scope_def example_matching_def example_pattern_def example_records_def str_line_def)

theorem matching_enumerates_the_product_witness:
  "matching_run (run 2) example_matching example_pattern (start_state example_scope)
     = Some (Inr example_records,
             (start_state example_scope)
               \<lparr>cursor := (cursor (start_state example_scope))(0 := Some (5, [VInt 3, VStr ''B'']))\<rparr>)
   \<and> length example_records = prod_list (map length [[VInt 1, VInt 2, VInt 3], [VStr ''A'', VStr ''B'']])"
proof -
  have c: "run_list (run 2) (collections example_matching) (start_state example_scope)
           = Some (Inr [VList [VInt 1, VInt 2, VInt 3], VList [VStr ''A'', VStr ''B'']],
                   start_state example_scope)"
    by (rule example_candidates) (simp add: start_state_def)
  have p: "pools [VList [VInt 1, VInt 2, VInt 3], VList [VStr ''A'', VStr ''B'']]
             = Inr [[VInt 1, VInt 2, VInt 3], [VStr ''A'', VStr ''B'']]"
    by simp
  from matching_enumerates_the_product [OF c p example_run] example_run
  show ?thesis by simp
qed

subsection \<open>How often the candidates are evaluated\<close>

lemma keeps_count_retE: "keeps_count (retE x)"
  by (simp add: keeps_count_def retE_def)

lemma keeps_count_raiseE: "keeps_count (raiseE e)"
  by (simp add: keeps_count_def raiseE_def)

lemma keeps_count_noneE: "keeps_count noneE"
  by (simp add: keeps_count_def noneE_def)

lemma keeps_count_lift: "keeps_count (lift r)"
  by (auto simp: lift_def keeps_count_retE keeps_count_raiseE keeps_count_noneE split: option.splits sum.splits)

lemma keeps_count_bindE:
  assumes "keeps_count f" and "\<And>x. keeps_count (g x)"
  shows "keeps_count (bindE f g)"
  unfolding keeps_count_def
proof (intro allI impI)
  fix st r st' assume h: "bindE f g st = Some (r, st')"
  show "evaluations st' = evaluations st"
  proof (cases "f st")
    case None then show ?thesis using h by (simp add: bindE_def)
  next
    case (Some a)
    obtain r1 st1 where a: "a = (r1, st1)" by (cases a)
    have e1: "evaluations st1 = evaluations st" using assms(1) Some a by (auto simp: keeps_count_def)
    show ?thesis
    proof (cases r1)
      case (Inl e) then show ?thesis using h Some a e1 by (simp add: bindE_def)
    next
      case (Inr x)
      have "g x st1 = Some (r, st')" using h Some a Inr by (simp add: bindE_def)
      then have "evaluations st' = evaluations st1" using assms(2) [of x] by (auto simp: keeps_count_def)
      with e1 show ?thesis by simp
    qed
  qed
qed

lemma keeps_count_bindE': "keeps_count f \<Longrightarrow> (\<And>x. keeps_count (g x)) \<Longrightarrow> keeps_count (bindE f g)"
  by (rule keeps_count_bindE)

lemma keeps_count_try_except:
  assumes "keeps_count f" and "\<And>e. keeps_count (h e)"
  shows "keeps_count (try_except f h)"
  unfolding keeps_count_def
proof (intro allI impI)
  fix st r st' assume a: "try_except f h st = Some (r, st')"
  show "evaluations st' = evaluations st"
  proof (cases "f st")
    case None then show ?thesis using a by (simp add: try_except_def)
  next
    case (Some p)
    obtain r1 st1 where p: "p = (r1, st1)" by (cases p)
    have e1: "evaluations st1 = evaluations st" using assms(1) Some p by (auto simp: keeps_count_def)
    show ?thesis
    proof (cases r1)
      case (Inr x) then show ?thesis using a Some p e1 by (simp add: try_except_def)
    next
      case (Inl e)
      have "h e st1 = Some (r, st')" using a Some p Inl by (simp add: try_except_def)
      then have "evaluations st' = evaluations st1" using assms(2) [of e] by (auto simp: keeps_count_def)
      with e1 show ?thesis by simp
    qed
  qed
qed

lemma keeps_count_reraise: "keeps_count (reraise ln e)"
  by (simp add: reraise_def keeps_count_raiseE)

lemma keeps_count_lookup: "keeps_count (lookup s)"
  by (simp add: keeps_count_def lookup_def)

lemma keeps_count_bind_symbol: "keeps_count (bind_symbol s v)"
  by (auto simp: keeps_count_def bind_symbol_def split: sum.splits)

lemma keeps_count_placeholder_value: "keeps_count (placeholder_value m n)"
  by (auto simp: keeps_count_def placeholder_value_def split: option.splits if_splits)

lemma keeps_count_matching_i: "keeps_count (matching_i m)"
  by (auto simp: keeps_count_def matching_i_def split: option.splits)

lemma keeps_count_set_cursor: "keeps_count (set_cursor m i row)"
  by (auto simp: keeps_count_def set_cursor_def)

lemma keeps_count_in_child:
  assumes "keeps_count f"
  shows "keeps_count (in_child d f)"
  unfolding keeps_count_def
proof (intro allI impI)
  fix st r st' assume a: "in_child d f st = Some (r, st')"
  then obtain r1 st1 p where
    f: "f (st\<lparr>scope := SymbolTable (Some (scope st)) d\<rparr>) = Some (r1, st1)" and
    s: "st' = st1\<lparr>scope := p\<rparr>"
    by (auto simp: in_child_def split: option.splits prod.splits)
  from assms f have "evaluations st1 = evaluations (st\<lparr>scope := SymbolTable (Some (scope st)) d\<rparr>)"
    unfolding keeps_count_def by blast
  then show "evaluations st' = evaluations st" using s by simp
qed

lemma keeps_count_run_each: "(\<And>x. keeps_count (ev x)) \<Longrightarrow> keeps_count (run_each ev xs)"
  by (induction xs) (auto intro!: keeps_count_retE keeps_count_bindE')

lemma keeps_count_run_list: "(\<And>x. keeps_count (ev x)) \<Longrightarrow> keeps_count (run_list ev xs)"
  by (induction xs) (auto intro!: keeps_count_retE keeps_count_bindE')

lemma keeps_count_run_rows: "(\<And>x. keeps_count (ev x)) \<Longrightarrow> keeps_count (run_rows ev m body i rows)"
  by (induction rows arbitrary: i) (auto intro!: keeps_count_retE keeps_count_bindE' keeps_count_set_cursor)

lemma keeps_count_bind_parameters: "(\<And>x. keeps_count (ev x)) \<Longrightarrow> keeps_count (bind_parameters ev zs d)"
  by (induction zs arbitrary: d) (auto intro!: keeps_count_retE keeps_count_bindE')

lemma keeps_count_union_from: "(\<And>x. keeps_count (ev x)) \<Longrightarrow> keeps_count (union_from ev acc xs)"
  by (induction xs arbitrary: acc) (auto intro!: keeps_count_retE keeps_count_bindE' keeps_count_lift)

lemma keeps_count_argument: "(\<And>x. keeps_count (ev x)) \<Longrightarrow> keeps_count (argument ev args i)"
  by (simp add: argument_def keeps_count_raiseE)

lemma keeps_count_unary: "(\<And>x. keeps_count (ev x)) \<Longrightarrow> keeps_count (unary ev args f)"
  by (auto simp: unary_def intro!: keeps_count_bindE' keeps_count_argument keeps_count_lift)

lemma keeps_count_binary: "(\<And>x. keeps_count (ev x)) \<Longrightarrow> keeps_count (binary ev args f)"
  by (auto simp: binary_def intro!: keeps_count_bindE' keeps_count_argument keeps_count_lift)

lemma keeps_count_call_builtin: "(\<And>x. keeps_count (ev x)) \<Longrightarrow> keeps_count (call_builtin ev b args)"
  by (cases b)
     (auto intro!: keeps_count_unary keeps_count_binary keeps_count_union_from keeps_count_bindE'
        keeps_count_argument keeps_count_lift keeps_count_retE)

lemma keeps_count_call_function:
  "(\<And>x. keeps_count (ev x)) \<Longrightarrow> keeps_count (call_function ev ps body ln args)"
  by (auto simp: call_function_def
        intro!: keeps_count_raiseE keeps_count_bindE' keeps_count_bind_parameters keeps_count_in_child keeps_count_retE)

lemma keeps_count_call_value: "(\<And>x. keeps_count (ev x)) \<Longrightarrow> keeps_count (call_value ev f args)"
  by (cases f) (auto simp: call_value_def intro!: keeps_count_raiseE keeps_count_call_function keeps_count_call_builtin)

lemma keeps_count_matching_run: "(\<And>x. keeps_count (ev x)) \<Longrightarrow> keeps_count (matching_run ev mt body)"
  by (auto simp: matching_run_def intro!: keeps_count_bindE' keeps_count_run_list keeps_count_lift keeps_count_run_rows)

lemma keeps_count_run_optional: "(\<And>x. keeps_count (ev x)) \<Longrightarrow> keeps_count (run_optional ev x)"
  by (cases x) (auto simp: run_optional_def keeps_count_retE)

lemma keeps_count_run_step:
  assumes "\<And>x. keeps_count (ev x)"
  shows "keeps_count (run_step ev x)"
proof (cases x)
  case (Assignment s opr e ln)
  then show ?thesis
    using assms
    by (cases e) (auto intro!: keeps_count_bindE' keeps_count_bind_symbol keeps_count_placeholder_value)
next
  case (Pattern xs mt c ln)
  then show ?thesis
    using assms
    by (cases mt)
       (auto intro!: keeps_count_bindE' keeps_count_retE keeps_count_in_child keeps_count_run_each keeps_count_matching_i)
qed (auto intro!: keeps_count_bindE' keeps_count_retE keeps_count_raiseE keeps_count_in_child
       keeps_count_run_each keeps_count_matching_run keeps_count_try_except keeps_count_call_value
       keeps_count_reraise keeps_count_lift keeps_count_run_optional keeps_count_lookup
     simp: assms)

lemma keeps_count_run: "keeps_count (run k x)"
  by (induction k arbitrary: x) (auto simp: keeps_count_noneE intro: keeps_count_run_step)


lemma counting_step:
  fixes st :: "'x counted_scheme"
  assumes "\<forall>x. keeps_count (ev x)" and "counting c ev x st = Some (r, st')"
  shows "evaluations st' = evaluations st + (if x = c then 1 else 0)"
proof -
  from assms(2) have "ev x (if x = c then st\<lparr>evaluations := Suc (evaluations st)\<rparr> else st) = Some (r, st')"
    by (simp add: counting_def)
  with assms(1) have "evaluations st' = evaluations (if x = c then st\<lparr>evaluations := Suc (evaluations st)\<rparr> else st)"
    unfolding keeps_count_def by blast
  then show ?thesis by simp
qed

lemma run_list_counting:
  fixes st :: "'x counted_scheme"
  assumes "\<forall>x. keeps_count (ev x)" and "run_list (counting c ev) xs st = Some (Inr vs, st')"
  shows "evaluations st' = evaluations st + count_list xs c"
  using assms(2)
proof (induction xs arbitrary: st vs)
  case Nil
  then show ?case by (simp add: retE_def)
next
  case (Cons x xs)
  from Cons.prems obtain v vs' and s1 :: "'x counted_scheme" where
    1: "counting c ev x st = Some (Inr v, s1)" and
    2: "run_list (counting c ev) xs s1 = Some (Inr vs', st')"
    by (auto simp: bindE_def retE_def split: option.splits sum.splits prod.splits)
  from counting_step [OF assms(1) 1] Cons.IH [OF 2] show ?case by simp
qed

lemma run_rows_counting:
  fixes st :: "'x counted_scheme"
  assumes "\<forall>x. keeps_count (ev x)" and "run_rows (counting c ev) m body i rows st = Some (Inr rs, st')"
  shows "evaluations st' = evaluations st + (if body = c then length rows else 0)"
  using assms(2)
proof (induction rows arbitrary: st rs i)
  case Nil
  then show ?case by (simp add: retE_def)
next
  case (Cons row rows)
  from Cons.prems obtain r rs' and s1 :: "'x counted_scheme" where
    1: "counting c ev body (st\<lparr>cursor := (cursor st)(m := Some (i, row))\<rparr>) = Some (Inr r, s1)" and
    2: "run_rows (counting c ev) m body (Suc i) rows s1 = Some (Inr rs', st')"
    by (auto simp: bindE_def retE_def set_cursor_def split: option.splits sum.splits prod.splits)
  from counting_step [OF assms(1) 1] Cons.IH [OF 2] show ?case by simp
qed

lemma run_rows_length:
  "run_rows ev m body i rows st = Some (Inr rs, st') \<Longrightarrow> length rs = length rows"
  by (induction rows arbitrary: i st rs)
     (auto simp: bindE_def retE_def set_cursor_def split: option.splits sum.splits prod.splits)

text \<open>
  Claim C5.  Let \<^verbatim>\<open>Matching.run\<close> work with an evaluator that counts how often it is
  handed the node \<open>c\<close> and otherwise keeps the count, as \<^verbatim>\<open>run\<close> itself does at every
  depth.  When it returns the results \<open>rs\<close>, it has first evaluated the candidates, one
  after the other in the state they leave, which raises the count by the number of
  occurrences of \<open>c\<close> among the candidates (by one for a candidate that is registered
  once), and only then enumerated the product: the enumeration starts in the state that
  the candidates left and adds to the count only if \<open>c\<close> is the body itself.  The number of
  combinations does not matter.  In the enumeration, an assignment from the placeholder of
  slot \<open>n\<close> binds element \<open>n\<close> of the current row, whatever the evaluator is: it evaluates
  nothing.
\<close>

theorem candidates_are_evaluated_once:
  fixes st :: "'x counted_scheme"
  assumes "\<forall>x. keeps_count (ev x)"
      and "matching_run (counting c ev) mt body st = Some (Inr rs, st')"
  shows "(\<exists>vals ps st0.
            run_list (counting c ev) (collections mt) st = Some (Inr vals, st0) \<and>
            pools vals = Inr ps \<and>
            evaluations st0 = evaluations st + count_list (collections mt) c \<and>
            run_rows (counting c ev) (mid mt) body 0 (product ps) st0 = Some (Inr rs, st') \<and>
            evaluations st' = evaluations st0 + (if body = c then length rs else 0)) \<and>
         (\<forall>k x. keeps_count (run k x :: (val, 'x counted_scheme) eval)) \<and>
         (\<forall>s :: 'x counted_scheme. \<forall>i row n name opr m ln ev'.
            cursor s m = Some (i, row) \<and> n < length row \<longrightarrow>
              run_step ev' (Assignment name opr (Placeholder m n) ln) s = bind_symbol name (row ! n) s)"
proof -
  from assms(2) obtain vals ps and st0 :: "'x counted_scheme" where
    1: "run_list (counting c ev) (collections mt) st = Some (Inr vals, st0)" and
    2: "pools vals = Inr ps" and
    3: "run_rows (counting c ev) (mid mt) body 0 (product ps) st0 = Some (Inr rs, st')"
    by (auto simp: matching_run_def bindE_def lift_def retE_def raiseE_def
          split: option.splits sum.splits prod.splits)
  from run_list_counting [OF assms(1) 1]
  have 4: "evaluations st0 = evaluations st + count_list (collections mt) c" .
  from run_rows_counting [OF assms(1) 3] run_rows_length [OF 3]
  have 5: "evaluations st' = evaluations st0 + (if body = c then length rs else 0)" by simp
  have 6: "\<forall>k x. keeps_count (run k x :: (val, 'x counted_scheme) eval)"
    by (simp add: keeps_count_run)
  have 7: "\<forall>s :: 'x counted_scheme. \<forall>i row n name opr m ln ev'.
            cursor s m = Some (i, row) \<and> n < length row \<longrightarrow>
              run_step ev' (Assignment name opr (Placeholder m n) ln) s = bind_symbol name (row ! n) s"
    by (simp add: bindE_def placeholder_value_def)
  from 1 2 3 4 5 6 7 show ?thesis by blast
qed

lemma example_run_counted:
  "matching_run (counting (Symbol ''x'' None) (run 2)) example_matching example_pattern
       (counted_start example_scope)
     = Some (Inr example_records,
             (counted_start example_scope)
               \<lparr>cursor := (cursor (counted_start example_scope))(0 := Some (5, [VInt 3, VStr ''B''])),
                 evaluations := 1\<rparr>)"
  unfolding matching_run_def
  by (simp add: example_product counting_def numeral_eq_Suc bindE_def retE_def lift_def in_child_def
        set_cursor_def matching_i_def placeholder_value_def bind_symbol_def setitem_def
        try_except_def lookup_def counted_start_def
        example_scope_def example_matching_def example_pattern_def example_records_def str_line_def)

theorem candidates_are_evaluated_once_witness:
  "matching_run (counting (Symbol ''x'' None) (run 2)) example_matching example_pattern
       (counted_start example_scope)
     = Some (Inr example_records,
             (counted_start example_scope)
               \<lparr>cursor := (cursor (counted_start example_scope))(0 := Some (5, [VInt 3, VStr ''B''])),
                 evaluations := 1\<rparr>)
   \<and> length example_records = 6
   \<and> count_list (collections example_matching) (Symbol ''x'' None) = 1"
proof -
  have k: "\<forall>x. keeps_count (run 2 x :: (val, counted) eval)"
    by (simp add: keeps_count_run)
  from candidates_are_evaluated_once [OF k example_run_counted] example_run_counted
  show ?thesis by (simp add: example_matching_def example_records_def)
qed

end
